theory Spec2Isabelle
  imports Complex_Main "HOL-Library.Multiset"
begin

section \<open>Arrays, errors and the external operations\<close>

text \<open>
  The example \<^verbatim>\<open>examples/latent_ode.py\<close> is glue code around JAX arrays. A one-dimensional
  array is a list of reals, a two-dimensional array a list of rows. Arithmetic on finite
  numbers is exact real arithmetic: rounding is outside this model. Where the code can
  produce a number that is not finite (the exponential of \<^verbatim>\<open>_latent\<close>, the mean of an
  empty batch), the value is of type \<open>fl\<close> below. Every Python exception the file can
  raise is a value of \<open>error\<close>; a function that can raise returns \<open>error + 'a\<close>.
\<close>

type_synonym vec = "real list"

datatype error =
    IndexError
  | ShapeError
  | SolveFailure
  | ZeroDivisionError
  | AssertionError
  | ValueError
  | TypeError
  | StopIteration

text \<open>
  A floating-point value: a finite number, an infinity or NaN. Sums and products follow
  the IEEE rules for the values that are not finite: NaN absorbs, \<open>inf + (-inf)\<close> and
  \<open>0 * inf\<close> are NaN. They are values, not exceptions: the code goes on with them.
\<close>

datatype fl = Fin real | PosInf | NegInf | NaN

fun fl_add :: "fl \<Rightarrow> fl \<Rightarrow> fl" where
  "fl_add NaN b = NaN"
| "fl_add a NaN = NaN"
| "fl_add (Fin x) (Fin y) = Fin (x + y)"
| "fl_add (Fin x) b = b"
| "fl_add a (Fin y) = a"
| "fl_add PosInf PosInf = PosInf"
| "fl_add NegInf NegInf = NegInf"
| "fl_add PosInf NegInf = NaN"
| "fl_add NegInf PosInf = NaN"

definition inf_signed :: "real \<Rightarrow> fl" where
  "inf_signed x = (if 0 < x then PosInf else if x < 0 then NegInf else NaN)"

fun fl_mul :: "fl \<Rightarrow> fl \<Rightarrow> fl" where
  "fl_mul NaN b = NaN"
| "fl_mul a NaN = NaN"
| "fl_mul (Fin x) (Fin y) = Fin (x * y)"
| "fl_mul (Fin x) PosInf = inf_signed x"
| "fl_mul (Fin x) NegInf = inf_signed (- x)"
| "fl_mul PosInf (Fin y) = inf_signed y"
| "fl_mul NegInf (Fin y) = inf_signed (- y)"
| "fl_mul PosInf PosInf = PosInf"
| "fl_mul NegInf NegInf = PosInf"
| "fl_mul PosInf NegInf = NegInf"
| "fl_mul NegInf PosInf = NegInf"

instantiation fl :: comm_monoid_add
begin

definition zero_fl :: fl where
  "zero_fl = Fin 0"

definition plus_fl :: "fl \<Rightarrow> fl \<Rightarrow> fl" where
  "plus_fl = fl_add"

instance
proof
  fix a b c :: fl
  show "a + b + c = a + (b + c)"
    unfolding plus_fl_def by (cases a; cases b; cases c) simp_all
  show "a + b = b + a"
    unfolding plus_fl_def by (cases a; cases b) simp_all
  show "0 + a = a"
    unfolding plus_fl_def zero_fl_def by (cases a) simp_all
qed

end

fun is_fin :: "fl \<Rightarrow> bool" where
  "is_fin (Fin x) = True"
| "is_fin a = False"

fun is_pos_fin :: "fl \<Rightarrow> bool" where
  "is_pos_fin (Fin x) = (0 < x)"
| "is_pos_fin a = False"

fun fin_value :: "fl \<Rightarrow> real" where
  "fin_value (Fin x) = x"
| "fin_value a = 0"

text \<open>
  \<^verbatim>\<open>jnp.sum\<close> adds up all the elements of an array; \<^verbatim>\<open>jnp.mean\<close> of a one-dimensional
  array divides the sum by the number of elements, and is the value NaN (\<open>0 / 0\<close>) on
  an empty array. \<^verbatim>\<open>jnp.linspace(a, b, n)\<close> is the grid of \<open>n\<close> equidistant points from
  \<open>a\<close> to \<open>b\<close>.
\<close>

definition jnp_sum :: "vec \<Rightarrow> real" where
  "jnp_sum a = sum_list a"

definition jnp_sum2 :: "vec list \<Rightarrow> real" where
  "jnp_sum2 a = sum_list (map sum_list a)"

definition fl_div_count :: "fl \<Rightarrow> nat \<Rightarrow> fl" where
  "fl_div_count s n =
     (case s of
        Fin x \<Rightarrow> if n = 0 then NaN else Fin (x / real n)
      | PosInf \<Rightarrow> PosInf
      | NegInf \<Rightarrow> NegInf
      | NaN \<Rightarrow> NaN)"

definition jnp_mean :: "fl list \<Rightarrow> fl" where
  "jnp_mean a = fl_div_count (sum_list a) (length a)"

definition jnp_linspace :: "real \<Rightarrow> real \<Rightarrow> nat \<Rightarrow> vec" where
  "jnp_linspace a b n = map (\<lambda>i. a + real i * (b - a) / real (n - 1)) [0..<n]"

definition same_shape2 :: "vec list \<Rightarrow> vec list \<Rightarrow> bool" where
  "same_shape2 a b \<longleftrightarrow> length a = length b \<and> list_all2 (\<lambda>r s. length r = length s) a b"

text \<open>
  A Python slice \<^verbatim>\<open>xs[i:j]\<close> with integer bounds: a negative bound counts from the end,
  and both bounds are clamped to the list.
\<close>

definition py_clamp :: "nat \<Rightarrow> int \<Rightarrow> nat" where
  "py_clamp n i = (if i < 0 then nat (max 0 (i + int n)) else min n (nat i))"

definition py_slice :: "'a list \<Rightarrow> int \<Rightarrow> int \<Rightarrow> 'a list" where
  "py_slice xs i j =
     (let lo = py_clamp (length xs) i; hi = py_clamp (length xs) j
      in take (hi - lo) (drop lo xs))"

text \<open>
  Modelled from the spec: the randomness source of section 6, which the file takes
  from \<^verbatim>\<open>jax.random\<close>. A key is either made from a seed or is the \<open>i\<close>-th of the \<open>n\<close>
  children of a key; \<^verbatim>\<open>split(key, n)\<close> is deterministic and yields \<open>n\<close> children, and
  children of different keys, of different splits or at different positions are
  different values (the independent child generators of the specification).
\<close>

datatype key = PRNGKey int | Child key nat nat

definition jrandom_split :: "key \<Rightarrow> nat \<Rightarrow> key list" where
  "jrandom_split k n = map (Child k n) [0..<n]"

type_synonym field = "real \<Rightarrow> vec \<Rightarrow> vec"

text \<open>
  Modelled from the spec: the contract of the ODE solve primitive, whose code
  (\<^verbatim>\<open>diffrax.diffeqsolve\<close>) is not part of the example file. Section 6 gives it as
  \<^verbatim>\<open>solve(fieldFunction, t_start, t_end, y0, initial_step_hint, outputTimes) -> sequence
  of states at outputTimes\<close>, and section 4.4 says that a solve can fail. So a solve that
  returns has one state for every output time, and every state has the dimension of
  the initial state \<open>y0\<close> when the vector field keeps that dimension.
\<close>

definition solve_contract ::
  "(field \<Rightarrow> real \<Rightarrow> real \<Rightarrow> vec \<Rightarrow> real \<Rightarrow> real list \<Rightarrow> vec list option) \<Rightarrow> bool" where
  "solve_contract solve \<longleftrightarrow>
     (\<forall>f t0 t1 y0 dt0 ts sol_ys. solve f t0 t1 y0 dt0 ts = Some sol_ys \<longrightarrow>
        length sol_ys = length ts \<and>
        ((\<forall>t y. length y = length y0 \<longrightarrow> length (f t y) = length y0) \<longrightarrow>
         (\<forall>y \<in> set sol_ys. length y = length y0)))"

section \<open>The model\<close>

text \<open>
  \<^verbatim>\<open>Func.__call__\<close> (lines 84-85): the vector field is the scalar \<open>scale\<close> times the
  output of the network; time and \<open>args\<close> are not used.
\<close>

definition Func_call :: "real \<Rightarrow> (vec \<Rightarrow> vec) \<Rightarrow> field" where
  "Func_call scale mlp t y = map (\<lambda>x. scale * x) (mlp y)"

text \<open>
  \<^verbatim>\<open>class LatentODE\<close> (lines 91-100). The layers are modules of the library
  \<^verbatim>\<open>equinox\<close>; the file only calls them, so each is the function it computes. The field
  \<open>solver\<close> holds the vector field that \<^verbatim>\<open>diffrax.dopri5\<close> wraps.
\<close>

record LatentODE =
  solver :: field
  rnn_cell :: "vec \<Rightarrow> vec \<Rightarrow> vec"
  hidden_to_latent :: "vec \<Rightarrow> vec"
  latent_to_hidden :: "vec \<Rightarrow> vec"
  hidden_to_data :: "vec \<Rightarrow> vec"
  hidden_size :: nat
  latent_size :: nat

text \<open>
  The shapes that \<^verbatim>\<open>LatentODE.__init__\<close> (lines 110-126) gives the layers: the vector
  field maps \<open>hidden_size\<close> to \<open>hidden_size\<close>, the recurrent cell takes an input of
  \<open>data_size + 1\<close> and a hidden state of \<open>hidden_size\<close>, \<open>hidden_to_latent\<close> maps
  \<open>hidden_size\<close> to \<open>2 * latent_size\<close>, \<open>latent_to_hidden\<close> maps \<open>latent_size\<close> to
  \<open>hidden_size\<close> and \<open>hidden_to_data\<close> maps \<open>hidden_size\<close> to \<open>data_size\<close>. The
  parameters \<open>width_size\<close> and \<open>depth\<close> only shape the inside of the two networks.
\<close>

definition valid_config :: "LatentODE \<Rightarrow> nat \<Rightarrow> bool" where
  "valid_config m data_size \<longleftrightarrow>
     (\<forall>t y. length y = hidden_size m \<longrightarrow> length (solver m t y) = hidden_size m) \<and>
     (\<forall>x h. length x = data_size + 1 \<and> length h = hidden_size m \<longrightarrow>
        length (rnn_cell m x h) = hidden_size m) \<and>
     (\<forall>h. length h = hidden_size m \<longrightarrow> length (hidden_to_latent m h) = 2 * latent_size m) \<and>
     (\<forall>z. length z = latent_size m \<longrightarrow> length (latent_to_hidden m z) = hidden_size m) \<and>
     (\<forall>h. length h = hidden_size m \<longrightarrow> length (hidden_to_data m h) = data_size)"

text \<open>
  The other external operations are parameters of the model. \<open>diffeqsolve\<close> is the
  differential-equation solver \<^verbatim>\<open>diffrax.diffeqsolve\<close>, called with the vector field,
  \<open>t0\<close>, \<open>t1\<close>, \<open>y0\<close>, \<open>dt0\<close> and the output times of \<^verbatim>\<open>SaveAt(ts=ts)\<close>; it returns the
  saved states, or \<open>None\<close> when the solve fails. \<open>jrandom_normal key n\<close> is
  \<^verbatim>\<open>jrandom.normal(key, (n,))\<close> and \<open>jrandom_permutation\<close> is \<^verbatim>\<open>jrandom.permutation\<close>.
  \<open>jnp_exp\<close> is the floating-point exponential \<^verbatim>\<open>jnp.exp\<close>, which can underflow to
  \<open>0\<close> and overflow to infinity. \<open>nonfinite_train\<close> stands for what the decoder and the
  loss compute in \<^verbatim>\<open>train\<close> from a latent sample or a standard deviation that is not
  a finite positive number: this is arithmetic on infinities and NaN that the model does
  not follow; it gives the loss value, or \<open>None\<close> when the solver fails on such input.
\<close>

record externals =
  diffeqsolve :: "field \<Rightarrow> real \<Rightarrow> real \<Rightarrow> vec \<Rightarrow> real \<Rightarrow> real list \<Rightarrow> vec list option"
  jrandom_normal :: "key \<Rightarrow> nat \<Rightarrow> vec"
  jrandom_permutation :: "key \<Rightarrow> nat list \<Rightarrow> nat list"
  jnp_exp :: "real \<Rightarrow> fl"
  nonfinite_train :: "LatentODE \<Rightarrow> real list \<Rightarrow> vec list \<Rightarrow> fl list \<Rightarrow> vec \<Rightarrow> fl list \<Rightarrow> fl option"


subsection \<open>Encoder\<close>

text \<open>
  \<^verbatim>\<open>LatentODE._latent\<close> (lines 134-144). Line 136 joins the column of times to the
  observations; it needs as many times as observations. Lines 137-139 are the loop over
  \<^verbatim>\<open>reversed(data)\<close>: \<open>encoder_inputs\<close> is the sequence the loop iterates over and
  \<open>encoder_hidden\<close> the hidden state when the loop ends. Lines 140-143 need operands of
  the same shape; other shapes are reported as \<open>ShapeError\<close>. The standard deviation and
  the latent sample are floating-point values: \<^verbatim>\<open>jnp.exp\<close> can return \<open>0\<close> or infinity,
  and then \<^verbatim>\<open>noise * std\<close> can be an infinity or NaN.
\<close>

definition encoder_data :: "real list \<Rightarrow> vec list \<Rightarrow> error + vec list" where
  "encoder_data ts ys =
     (if length ts = length ys then Inr (map2 (#) ts ys) else Inl ShapeError)"

definition encoder_inputs :: "vec list \<Rightarrow> vec list" where
  "encoder_inputs data = rev data"

definition encoder_hidden :: "LatentODE \<Rightarrow> vec list \<Rightarrow> vec" where
  "encoder_hidden m data =
     foldl (\<lambda>hidden data_i. rnn_cell m data_i hidden)
       (replicate (hidden_size m) 0) (encoder_inputs data)"

definition LatentODE_latent ::
  "externals \<Rightarrow> LatentODE \<Rightarrow> real list \<Rightarrow> vec list \<Rightarrow> key
     \<Rightarrow> error + (fl list \<times> vec \<times> fl list)" where
  "LatentODE_latent E m ts ys k =
     (case encoder_data ts ys of
        Inl e \<Rightarrow> Inl e
      | Inr data \<Rightarrow>
          let hidden = encoder_hidden m data;
              context = hidden_to_latent m hidden;
              mean = take (latent_size m) context;
              logstd = drop (latent_size m) context;
              std = map (jnp_exp E) logstd;
              noise = jrandom_normal E k (latent_size m)
          in if length noise = length std \<and> length mean = length std
             then Inr (map2 fl_add (map Fin mean) (map2 fl_mul (map Fin noise) std), mean, std)
             else Inl ShapeError)"

subsection \<open>Decoder\<close>

text \<open>
  \<^verbatim>\<open>LatentODE._sample\<close> (lines 149-159). \<^verbatim>\<open>ts[0]\<close> and \<^verbatim>\<open>ts[-1]\<close> raise on an empty
  grid; a failure of the solver propagates as \<open>SolveFailure\<close>;
  \<^verbatim>\<open>jax.vmap(self.hidden_to_data)\<close> applies the layer to every saved state.
\<close>

definition LatentODE_sample_ts ::
  "externals \<Rightarrow> LatentODE \<Rightarrow> real list \<Rightarrow> vec \<Rightarrow> error + vec list" where
  "LatentODE_sample_ts E m ts latent =
     (let y0 = latent_to_hidden m latent
      in if ts = [] then Inl IndexError
         else (case diffeqsolve E (solver m) (hd ts) (last ts) y0 0.4 ts of
                 None \<Rightarrow> Inl SolveFailure
               | Some sol_ys \<Rightarrow> Inr (map (hidden_to_data m) sol_ys)))"

subsection \<open>Loss\<close>

text \<open>
  \<^verbatim>\<open>LatentODE._loss\<close> (lines 161-168). The two summands are the local variables of the
  source. The elementwise operations of the source are kept as array operations:
  \<^verbatim>\<open>(ys - pred_ys) ** 2\<close> is a subtraction of arrays followed by a squaring of every
  element, and \<^verbatim>\<open>mean ** 2 + std ** 2 - 2 * jnp.log(std) - 1\<close> is built from array
  operations in the same order. Operands of unequal shape, which \<^verbatim>\<open>jnp\<close> either
  broadcasts or rejects, are reported as \<open>ShapeError\<close>: broadcasting is not modelled.
\<close>

definition reconstruction_loss :: "vec list \<Rightarrow> vec list \<Rightarrow> real" where
  "reconstruction_loss ys pred_ys =
     0.5 * jnp_sum2 (map (map (\<lambda>d. d ^ 2)) (map2 (map2 (-)) ys pred_ys))"

definition variational_loss :: "vec \<Rightarrow> vec \<Rightarrow> real" where
  "variational_loss mean std =
     0.5 * jnp_sum
       (map (\<lambda>x. x - 1)
         (map2 (-)
           (map2 (+) (map (\<lambda>m. m ^ 2) mean) (map (\<lambda>s. s ^ 2) std))
           (map (\<lambda>l. 2 * l) (map ln std))))"

definition LatentODE_loss :: "vec list \<Rightarrow> vec list \<Rightarrow> vec \<Rightarrow> vec \<Rightarrow> error + real" where
  "LatentODE_loss ys pred_ys mean std =
     (if same_shape2 ys pred_ys \<and> length mean = length std
      then Inr (reconstruction_loss ys pred_ys + variational_loss mean std)
      else Inl ShapeError)"

text \<open>
  The loss as section 4.5 of the specification words it: half the sum, over all
  elements of the trajectory, of the squared differences, plus half the sum, over all
  components of the latent vector, of \<open>mean\<^sup>2 + std\<^sup>2 - 2 log std - 1\<close>.
\<close>

definition spec_reconstruction :: "vec list \<Rightarrow> vec list \<Rightarrow> real" where
  "spec_reconstruction ys pred_ys =
     0.5 * (\<Sum>i<length ys. \<Sum>j<length (ys ! i). (ys ! i ! j - pred_ys ! i ! j) ^ 2)"

definition spec_kl :: "vec \<Rightarrow> vec \<Rightarrow> real" where
  "spec_kl mean std =
     0.5 * (\<Sum>i<length mean. (mean ! i) ^ 2 + (std ! i) ^ 2 - 2 * ln (std ! i) - 1)"

definition spec_loss :: "vec list \<Rightarrow> vec list \<Rightarrow> vec \<Rightarrow> vec \<Rightarrow> real" where
  "spec_loss ys pred_ys mean std = spec_reconstruction ys pred_ys + spec_kl mean std"

subsection \<open>Training and inference entry points\<close>

text \<open>
  \<^verbatim>\<open>LatentODE.train\<close> (lines 173-176) and \<^verbatim>\<open>LatentODE.sample\<close> (lines 181-183). When
  the latent sample is finite and the standard deviation finite and positive, \<^verbatim>\<open>train\<close>
  decodes and scores them in real arithmetic; otherwise its result is what
  \<open>nonfinite_train\<close> gives.
\<close>

definition LatentODE_train ::
  "externals \<Rightarrow> LatentODE \<Rightarrow> real list \<Rightarrow> vec list \<Rightarrow> key \<Rightarrow> error + fl" where
  "LatentODE_train E m ts ys k =
     (case LatentODE_latent E m ts ys k of
        Inl e \<Rightarrow> Inl e
      | Inr (latent, mean, std) \<Rightarrow>
          if list_all is_fin latent \<and> list_all is_pos_fin std
          then (case LatentODE_sample_ts E m ts (map fin_value latent) of
                  Inl e \<Rightarrow> Inl e
                | Inr pred_ys \<Rightarrow>
                    (case LatentODE_loss ys pred_ys mean (map fin_value std) of
                       Inl e \<Rightarrow> Inl e
                     | Inr l \<Rightarrow> Inr (Fin l)))
          else (case nonfinite_train E m ts ys latent mean std of
                  None \<Rightarrow> Inl SolveFailure
                | Some l \<Rightarrow> Inr l))"

definition LatentODE_sample ::
  "externals \<Rightarrow> LatentODE \<Rightarrow> real list \<Rightarrow> key \<Rightarrow> error + vec list" where
  "LatentODE_sample E m ts k =
     (let latent = jrandom_normal E k (latent_size m)
      in LatentODE_sample_ts E m ts latent)"

text \<open>
  The encoder as section 4.2 of the specification words it: the input of a step is
  the time put in front of the observation, the hidden state starts as the zero vector,
  and the pairs are consumed in reverse chronological order, so the summary of a
  trajectory is the cell applied to its first pair and the summary of the later pairs.
\<close>

fun spec_summary :: "(vec \<Rightarrow> vec \<Rightarrow> vec) \<Rightarrow> nat \<Rightarrow> (real \<times> vec) list \<Rightarrow> vec" where
  "spec_summary cell n [] = replicate n 0"
| "spec_summary cell n ((t, y) # later) = cell (t # y) (spec_summary cell n later)"


section \<open>The minibatch loss\<close>

text \<open>
  The function \<^verbatim>\<open>loss\<close> of \<^verbatim>\<open>main\<close> (lines 266-271), without the gradient that
  \<^verbatim>\<open>eqx.filter_value_and_grad\<close> adds to its value. \<open>collect\<close> gathers the results of the
  mapped calls: the batch fails when one of its elements fails; the mean of an empty
  batch is the value NaN, and the code goes on with it. \<open>vmap_train\<close> is line
  270, which needs the three mapped arrays to have the same number of rows, and
  \<open>mean_loss\<close> is lines 270-271 for given per-element keys. \<open>loss\<close> gives the element
  at position \<open>j\<close> the \<open>j\<close>-th child of \<open>key_i\<close>.
\<close>

fun collect :: "(error + 'a) list \<Rightarrow> error + 'a list" where
  "collect [] = Inr []"
| "collect (Inl e # rs) = Inl e"
| "collect (Inr v # rs) = (case collect rs of Inl e \<Rightarrow> Inl e | Inr vs \<Rightarrow> Inr (v # vs))"

definition vmap_train ::
  "externals \<Rightarrow> LatentODE \<Rightarrow> real list list \<Rightarrow> vec list list \<Rightarrow> key list \<Rightarrow> error + fl list" where
  "vmap_train E m ts_i ys_i keys =
     (if length ys_i = length ts_i \<and> length keys = length ts_i
      then collect (map (\<lambda>(ts, ys, k). LatentODE_train E m ts ys k) (zip ts_i (zip ys_i keys)))
      else Inl ShapeError)"

definition mean_loss ::
  "externals \<Rightarrow> LatentODE \<Rightarrow> real list list \<Rightarrow> vec list list \<Rightarrow> key list \<Rightarrow> error + fl" where
  "mean_loss E m ts_i ys_i keys =
     (case vmap_train E m ts_i ys_i keys of
        Inl e \<Rightarrow> Inl e
      | Inr losses \<Rightarrow> Inr (jnp_mean losses))"

definition loss ::
  "externals \<Rightarrow> LatentODE \<Rightarrow> real list list \<Rightarrow> vec list list \<Rightarrow> key \<Rightarrow> error + fl" where
  "loss E m ts_i ys_i key_i =
     (let batch_size = length ts_i;
          keys = jrandom_split key_i batch_size
      in mean_loss E m ts_i ys_i keys)"

section \<open>The dataloader\<close>

text \<open>
  \<^verbatim>\<open>dataloader\<close> (lines 222-235) is a generator. Its frame holds \<open>perm\<close>, \<open>key\<close>,
  \<open>start\<close> and \<open>end\<close>; \<open>dataset_size\<close> and \<open>batch_size\<close> do not change. \<open>reshuffle\<close> is
  lines 227-230, the head of the body of \<^verbatim>\<open>while True\<close>. \<open>dl_inner\<close> runs from the test
  of the inner loop (line 231) to the next \<^verbatim>\<open>yield\<close> and returns the frame there: when
  the test fails it goes round the outer loop, and it never returns when the dataset is
  empty. \<open>batch_perm\<close> is line 232 in the frame of a \<^verbatim>\<open>yield\<close>.
\<close>

record dl_state =
  dl_perm :: "nat list"
  dl_key :: key
  dl_start :: int
  dl_end :: int

definition reshuffle :: "(key \<Rightarrow> nat list \<Rightarrow> nat list) \<Rightarrow> nat \<Rightarrow> int \<Rightarrow> key \<Rightarrow> dl_state" where
  "reshuffle permutation dataset_size batch_size k =
     \<lparr>dl_perm = permutation k [0..<dataset_size],
      dl_key = hd (jrandom_split k 1),
      dl_start = 0,
      dl_end = batch_size\<rparr>"

partial_function (option) dl_inner ::
  "(key \<Rightarrow> nat list \<Rightarrow> nat list) \<Rightarrow> nat \<Rightarrow> int \<Rightarrow> dl_state \<Rightarrow> dl_state option" where
  "dl_inner permutation dataset_size batch_size s =
     (if dl_start s < int dataset_size then Some s
      else dl_inner permutation dataset_size batch_size
             (reshuffle permutation dataset_size batch_size (dl_key s)))"

definition batch_perm :: "dl_state \<Rightarrow> nat list" where
  "batch_perm s = py_slice (dl_perm s) (dl_start s) (dl_end s)"

definition advance :: "int \<Rightarrow> dl_state \<Rightarrow> dl_state" where
  "advance batch_size s = s\<lparr>dl_start := dl_end s, dl_end := dl_end s + batch_size\<rparr>"

text \<open>
  A generator is either not started yet, holding the key it was called with, or
  suspended at the \<^verbatim>\<open>yield\<close>. \<open>dataloader_next\<close> is \<^verbatim>\<open>next\<close> on the generator: the first
  call runs lines 223-232 and later calls resume with lines 234-235. It returns the
  batch \<^verbatim>\<open>tuple(array[batch_perm] for array in arrays)\<close> for the two arrays that
  \<^verbatim>\<open>main\<close> passes, and the generator; \<open>None\<close> means that the call never returns.
  The rows are read at the indices of \<open>batch_perm\<close>, which are indices of the dataset
  when \<^verbatim>\<open>jrandom.permutation\<close> returns a permutation.
\<close>

datatype gen = Unstarted key | Suspended dl_state

definition yield_batch ::
  "real list list \<times> vec list list \<Rightarrow> dl_state \<Rightarrow> (real list list \<times> vec list list) \<times> gen" where
  "yield_batch arrays s =
     ((map (\<lambda>i. fst arrays ! i) (batch_perm s), map (\<lambda>i. snd arrays ! i) (batch_perm s)),
      Suspended s)"

definition dataloader_next ::
  "(key \<Rightarrow> nat list \<Rightarrow> nat list) \<Rightarrow> real list list \<times> vec list list \<Rightarrow> int \<Rightarrow> gen
     \<Rightarrow> (error + (real list list \<times> vec list list) \<times> gen) option" where
  "dataloader_next permutation arrays batch_size g =
     (let dataset_size = length (fst arrays)
      in case g of
           Unstarted k \<Rightarrow>
             if length (snd arrays) \<noteq> dataset_size then Some (Inl AssertionError)
             else map_option (\<lambda>s. Inr (yield_batch arrays s))
                    (dl_inner permutation dataset_size batch_size
                       (reshuffle permutation dataset_size batch_size k))
         | Suspended s \<Rightarrow>
             map_option (\<lambda>s. Inr (yield_batch arrays s))
               (dl_inner permutation dataset_size batch_size (advance batch_size s)))"

text \<open>
  The batches of one epoch, that is of one round of the outer loop: the index lists
  that the inner loop (lines 231-235) yields, in order, from the frame at its test
  until the test fails. The loop does not end when \<open>batch_size\<close> is not positive; the
  result is then \<open>None\<close>.
\<close>

partial_function (option) epoch_batches :: "nat \<Rightarrow> int \<Rightarrow> dl_state \<Rightarrow> nat list list option" where
  "epoch_batches dataset_size batch_size s =
     (if dl_start s < int dataset_size
      then Option.bind (epoch_batches dataset_size batch_size (advance batch_size s))
             (\<lambda>rest. Some (batch_perm s # rest))
      else Some [])"

text \<open>
  The consecutive blocks of \<open>n\<close> elements of a list; the last block holds what is left
  over. This is what slicing a permutation at \<open>0\<close>, \<open>n\<close>, \<open>2n\<close>, ... gives.
\<close>

function chunks :: "nat \<Rightarrow> 'a list \<Rightarrow> 'a list list" where
  "chunks n xs = (if n = 0 \<or> xs = [] then [] else take n xs # chunks n (drop n xs))"
  by pat_completeness auto
termination
  by (relation "measure (\<lambda>(n, xs). length xs)") auto

declare chunks.simps [simp del]

section \<open>The training loop\<close>

text \<open>
  Lines 279-281. Python's \<^verbatim>\<open>//\<close> and \<^verbatim>\<open>%\<close> on integers are the floor division and
  its remainder, as \<open>div\<close> and \<open>mod\<close> on \<open>int\<close> are, and raise on a zero divisor.
\<close>

definition num_plots :: "int \<Rightarrow> int \<Rightarrow> error + int" where
  "num_plots steps save_every =
     (if save_every = 0 then Inl ZeroDivisionError
      else let num_plots = 1 + (steps - 1) div save_every
           in if (steps - 1) mod save_every \<noteq> 0 then Inr (num_plots + 1) else Inr num_plots)"

text \<open>The condition of line 297.\<close>

definition plot_branch :: "int \<Rightarrow> int \<Rightarrow> int \<Rightarrow> bool" where
  "plot_branch steps save_every step \<longleftrightarrow> step mod save_every = 0 \<or> step = steps - 1"

text \<open>
  The gradient, the optimizer and the update of the parameters are operations of
  \<^verbatim>\<open>equinox\<close> and \<^verbatim>\<open>optax\<close>: \<open>grad_loss\<close> is the gradient half of
  \<^verbatim>\<open>eqx.filter_value_and_grad(loss)\<close>, \<open>optim_update\<close> is \<^verbatim>\<open>optim.update\<close> and
  \<open>apply_updates\<close> is \<^verbatim>\<open>eqx.apply_updates\<close>.
\<close>

record ('g, 'o, 'u) learner =
  grad_loss :: "LatentODE \<Rightarrow> real list list \<Rightarrow> vec list list \<Rightarrow> key \<Rightarrow> 'g"
  optim_update :: "'g \<Rightarrow> 'o \<Rightarrow> 'u \<times> 'o"
  apply_updates :: "LatentODE \<Rightarrow> 'u \<Rightarrow> LatentODE"

text \<open>
  What the loop reads and does not change: the dataset, \<open>batch_size\<close>, \<open>steps\<close>,
  \<open>save_every\<close>, the key \<open>sample_key\<close> and the number of axes that
  \<^verbatim>\<open>plt.subplots(1, num_plots)\<close> made (lines 282-284, \<open>make_axes\<close> below).
\<close>

record run_config =
  cfg_arrays :: "real list list \<times> vec list list"
  cfg_batch_size :: int
  cfg_steps :: int
  cfg_save_every :: int
  cfg_sample_key :: key
  cfg_num_axes :: nat

text \<open>
  The variables that the loop updates: the model, the optimizer state, \<open>train_key\<close>,
  the dataloader and the position of the iterator \<^verbatim>\<open>axs\<close>. Two more fields observe the
  run: the number of optimizer updates done, and the calls of \<^verbatim>\<open>jax.random\<close> that the
  body of the loop makes (the dataloader's own calls are not recorded), each with the
  key it was given, in the order of the calls.
\<close>

datatype rng_call = Split key nat | Normal key

record 'o loop_state =
  ls_model :: LatentODE
  ls_opt_state :: 'o
  ls_train_key :: key
  ls_loader :: gen
  ls_axs :: nat
  ls_updates :: nat
  ls_rng_log :: "rng_call list"

text \<open>
  The calls of \<^verbatim>\<open>jax.random\<close> made by \<^verbatim>\<open>loss\<close>: line 269 splits \<open>key_i\<close>, and every
  mapped call of \<^verbatim>\<open>model.train\<close> draws its noise with its own child key (line 143).
  \<^verbatim>\<open>model.sample\<close> draws the latent with the key it is given (line 182).
\<close>

definition loss_rng_calls :: "key \<Rightarrow> nat \<Rightarrow> rng_call list" where
  "loss_rng_calls key_i batch_size =
     Split key_i batch_size # map Normal (jrandom_split key_i batch_size)"

definition sample_rng_calls :: "key \<Rightarrow> rng_call list" where
  "sample_rng_calls k = [Normal k]"

text \<open>
  Lines 288-309, the body of the loop after the batch is drawn. \<^verbatim>\<open>next(axs)\<close> raises
  \<^verbatim>\<open>StopIteration\<close> when all axes are taken; \<^verbatim>\<open>sample_y[:, 0]\<close> and \<^verbatim>\<open>sample_y[:, 1]\<close>
  need two columns.
\<close>

definition train_and_plot ::
  "externals \<Rightarrow> ('g, 'o, 'u) learner \<Rightarrow> run_config \<Rightarrow> int \<Rightarrow> 'o loop_state
     \<Rightarrow> real list list \<Rightarrow> vec list list \<Rightarrow> error + 'o loop_state" where
  "train_and_plot E L C step st ts_i ys_i =
     (case loss E (ls_model st) ts_i ys_i (ls_train_key st) of
        Inl e \<Rightarrow> Inl e
      | Inr value \<Rightarrow>
          let grads = grad_loss L (ls_model st) ts_i ys_i (ls_train_key st);
              log1 = ls_rng_log st @ loss_rng_calls (ls_train_key st) (length ts_i);
              train_key = hd (jrandom_split (ls_train_key st) 1);
              log2 = log1 @ [Split (ls_train_key st) 1];
              (updates, opt_state) = optim_update L grads (ls_opt_state st);
              model = apply_updates L (ls_model st) updates;
              st' = st\<lparr>ls_model := model, ls_opt_state := opt_state, ls_train_key := train_key,
                       ls_updates := Suc (ls_updates st), ls_rng_log := log2\<rparr>
          in if cfg_save_every C = 0 then Inl ZeroDivisionError
             else if plot_branch (cfg_steps C) (cfg_save_every C) step
             then (if ls_axs st' < cfg_num_axes C
                   then (case LatentODE_sample E model (jnp_linspace 0 12 300) (cfg_sample_key C) of
                           Inl e \<Rightarrow> Inl e
                         | Inr sample_y \<Rightarrow>
                             if \<forall>row \<in> set sample_y. 2 \<le> length row
                             then Inr (st'\<lparr>ls_axs := Suc (ls_axs st'),
                                           ls_rng_log := log2 @ sample_rng_calls (cfg_sample_key C)\<rparr>)
                             else Inl IndexError)
                   else Inl StopIteration)
             else Inr st')"

text \<open>
  One iteration of the loop of lines 285-309: \<^verbatim>\<open>zip\<close> asks the dataloader for the next
  batch, then the body runs.
\<close>

definition loop_body ::
  "externals \<Rightarrow> ('g, 'o, 'u) learner \<Rightarrow> run_config \<Rightarrow> int \<Rightarrow> 'o loop_state
     \<Rightarrow> (error + 'o loop_state) option" where
  "loop_body E L C step st =
     (case dataloader_next (jrandom_permutation E) (cfg_arrays C) (cfg_batch_size C) (ls_loader st) of
        None \<Rightarrow> None
      | Some (Inl e) \<Rightarrow> Some (Inl e)
      | Some (Inr ((ts_i, ys_i), g)) \<Rightarrow>
          Some (train_and_plot E L C step (st\<lparr>ls_loader := g\<rparr>) ts_i ys_i))"

text \<open>
  The loop over \<^verbatim>\<open>zip(range(steps), dataloader(...))\<close>: \<^verbatim>\<open>zip\<close> takes the next step
  first and stops, without asking the dataloader, when the range is used up. An
  exception ends the loop; \<open>None\<close> is a loop that never ends.
\<close>

fun train_loop ::
  "externals \<Rightarrow> ('g, 'o, 'u) learner \<Rightarrow> run_config \<Rightarrow> int list \<Rightarrow> 'o loop_state
     \<Rightarrow> (error + 'o loop_state) option" where
  "train_loop E L C [] st = Some (Inr st)"
| "train_loop E L C (step # rest) st =
     (case loop_body E L C step st of
        None \<Rightarrow> None
      | Some (Inl e) \<Rightarrow> Some (Inl e)
      | Some (Inr st') \<Rightarrow> train_loop E L C rest st')"

text \<open>
  Lines 282-284, as the plotting library \<^verbatim>\<open>matplotlib\<close> behaves: \<^verbatim>\<open>plt.subplots(1, n)\<close>
  raises \<^verbatim>\<open>ValueError\<close> unless \<open>n\<close> is positive; for \<open>n = 1\<close> it returns a single axes
  object and not an array, so that \<^verbatim>\<open>axs[0]\<close> raises \<^verbatim>\<open>TypeError\<close>; otherwise it returns
  \<open>n\<close> axes, which \<^verbatim>\<open>iter(axs)\<close> hands out one at a time.
\<close>

definition make_axes :: "int \<Rightarrow> error + nat" where
  "make_axes n =
     (if n \<le> 0 then Inl ValueError
      else if n = 1 then Inl TypeError
      else Inr (nat n))"

text \<open>
  Lines 279-309 of \<^verbatim>\<open>main\<close>: the number of axes, the axes, then the loop from the state
  in which nothing has been done yet. \<^verbatim>\<open>range(steps)\<close> is the list \<open>[0..steps - 1]\<close>.
\<close>

definition main_loop ::
  "externals \<Rightarrow> ('g, 'o, 'u) learner \<Rightarrow> real list list \<times> vec list list \<Rightarrow> int \<Rightarrow> int \<Rightarrow> int
     \<Rightarrow> LatentODE \<Rightarrow> 'o \<Rightarrow> key \<Rightarrow> key \<Rightarrow> key \<Rightarrow> (error + 'o loop_state) option" where
  "main_loop E L arrays batch_size steps save_every model opt_state loader_key train_key sample_key =
     (case num_plots steps save_every of
        Inl e \<Rightarrow> Some (Inl e)
      | Inr n \<Rightarrow>
          (case make_axes n of
             Inl e \<Rightarrow> Some (Inl e)
           | Inr num_axes \<Rightarrow>
               train_loop E L
                 \<lparr>cfg_arrays = arrays, cfg_batch_size = batch_size, cfg_steps = steps,
                  cfg_save_every = save_every, cfg_sample_key = sample_key,
                  cfg_num_axes = num_axes\<rparr>
                 [0..steps - 1]
                 \<lparr>ls_model = model, ls_opt_state = opt_state, ls_train_key = train_key,
                  ls_loader = Unstarted loader_key, ls_axs = 0, ls_updates = 0,
                  ls_rng_log = []\<rparr>))"




section \<open>Instances of the external operations\<close>

text \<open>
  Concrete externals on which the model can be evaluated. \<open>euler_solve\<close> is the explicit
  Euler method stepping from one output time to the next; it never fails.
  \<open>index_normal\<close> is a noise source that tells keys apart: the draw for the \<open>i\<close>-th child
  of a split is the constant vector \<open>i\<close>. \<open>rev_permutation\<close> reverses the indices.
  \<open>float32_exp\<close> is an exponential with the range of single precision: it is \<open>0\<close> below
  \<open>-104\<close> and infinite above \<open>89\<close>. \<open>nan_outcome\<close> gives the loss NaN to every input that
  is not finite.
\<close>

fun euler_states :: "field \<Rightarrow> vec \<Rightarrow> real list \<Rightarrow> vec list" where
  "euler_states f y [] = []"
| "euler_states f y [t] = [y]"
| "euler_states f y (t # t' # ts) =
     y # euler_states f (map2 (\<lambda>yi di. yi + (t' - t) * di) y (f t y)) (t' # ts)"

definition euler_solve :: "field \<Rightarrow> real \<Rightarrow> real \<Rightarrow> vec \<Rightarrow> real \<Rightarrow> real list \<Rightarrow> vec list option" where
  "euler_solve f t0 t1 y0 dt0 ts = Some (euler_states f y0 ts)"

fun key_index :: "key \<Rightarrow> nat" where
  "key_index (PRNGKey seed) = 0"
| "key_index (Child k n i) = i"

definition index_normal :: "key \<Rightarrow> nat \<Rightarrow> vec" where
  "index_normal k n = replicate n (real (key_index k))"

definition rev_permutation :: "key \<Rightarrow> nat list \<Rightarrow> nat list" where
  "rev_permutation k xs = rev xs"

definition float32_exp :: "real \<Rightarrow> fl" where
  "float32_exp x = (if x < - 104 then Fin 0 else if 89 < x then PosInf else Fin (exp x))"

definition nan_outcome ::
  "LatentODE \<Rightarrow> real list \<Rightarrow> vec list \<Rightarrow> fl list \<Rightarrow> vec \<Rightarrow> fl list \<Rightarrow> fl option" where
  "nan_outcome m ts ys latent mean std = Some NaN"

definition example_externals :: externals where
  "example_externals =
     \<lparr>diffeqsolve = euler_solve, jrandom_normal = index_normal,
      jrandom_permutation = rev_permutation, jnp_exp = float32_exp,
      nonfinite_train = nan_outcome\<rparr>"

text \<open>The same externals with a solver that fails on every call.\<close>

definition failing_externals :: externals where
  "failing_externals = example_externals\<lparr>diffeqsolve := (\<lambda>f t0 t1 y0 dt0 ts. None)\<rparr>"

text \<open>
  A model with \<open>data_size = hidden_size = latent_size = 2\<close> whose layers are those of
  simple weights: the network of the vector field has zero weights (its last activation
  gives \<open>tanh 0 = 0\<close>) and \<open>scale\<close> is \<open>1\<close> as in line 109; the recurrent cell with zero
  weights halves the hidden state; \<open>hidden_to_latent\<close> has zero weights and bias;
  \<open>latent_to_hidden\<close> and \<open>hidden_to_data\<close> are identities.
\<close>

definition example_model :: LatentODE where
  "example_model =
     \<lparr>solver = Func_call 1 (\<lambda>y. map (\<lambda>x. 0) y),
      rnn_cell = (\<lambda>x h. map (\<lambda>v. v / 2) h),
      hidden_to_latent = (\<lambda>h. replicate 4 0),
      latent_to_hidden = (\<lambda>z. z),
      hidden_to_data = (\<lambda>h. h),
      hidden_size = 2,
      latent_size = 2\<rparr>"


text \<open>
  A model whose cell keeps a record of the order of its inputs: every component of the
  new hidden state is the time of the input plus ten times the old component, and
  \<open>hidden_to_latent\<close> passes the summary on as the mean, with \<open>0\<close> for the logarithm of
  the standard deviation.
\<close>

definition recording_model :: LatentODE where
  "recording_model =
     example_model\<lparr>rnn_cell := (\<lambda>x h. map (\<lambda>v. hd x + 10 * v) h),
                    hidden_to_latent := (\<lambda>h. h @ [0, 0])\<rparr>"

text \<open>A learner that leaves the model as it is, as an optimizer with learning rate \<open>0\<close> does.\<close>

definition frozen_learner :: "(unit, unit, unit) learner" where
  "frozen_learner =
     \<lparr>grad_loss = (\<lambda>m ts_i ys_i k. ()), optim_update = (\<lambda>g s. ((), ())),
      apply_updates = (\<lambda>m u. m)\<rparr>"

text \<open>A dataset of two trajectories on the same grid of two times.\<close>

definition example_arrays :: "real list list \<times> vec list list" where
  "example_arrays = ([[0, 1], [0, 1]], [[[0, 0], [0, 0]], [[1, 1], [1, 1]]])"

section \<open>Properties of the loss\<close>

lemma sum_list_map2_nth:
  fixes f :: "'a \<Rightarrow> 'b \<Rightarrow> real"
  assumes "length xs = length ys"
  shows "sum_list (map2 f xs ys) = (\<Sum>i<length xs. f (xs ! i) (ys ! i))"
proof -
  have "sum_list (map2 f xs ys) = (\<Sum>i = 0..<length (map2 f xs ys). map2 f xs ys ! i)"
    by (rule sum_list_sum_nth)
  also have "\<dots> = (\<Sum>i<length xs. f (xs ! i) (ys ! i))"
    using assms by (simp add: atLeast0LessThan)
  finally show ?thesis .
qed

lemma map_map2_fuse: "map g (map2 f xs ys) = map2 (\<lambda>a b. g (f a b)) xs ys"
  by (simp add: case_prod_unfold comp_def)

lemma reconstruction_row:
  fixes r :: vec
  assumes "length r = length s"
  shows "sum_list (map (\<lambda>d. d ^ 2) (map2 (-) r s)) = (\<Sum>j<length r. (r ! j - s ! j) ^ 2)"
  using assms by (simp only: map_map2_fuse sum_list_map2_nth)

lemma reconstruction_rows:
  fixes ys :: "vec list"
  assumes "list_all2 (\<lambda>r s. length r = length s) ys pred_ys"
  shows "map sum_list (map (map (\<lambda>d. d ^ 2)) (map2 (map2 (-)) ys pred_ys))
        = map2 (\<lambda>r s. \<Sum>j<length r. (r ! j - s ! j) ^ 2) ys pred_ys"
  using assms
proof (induction ys pred_ys rule: list_all2_induct)
  case Nil
  then show ?case by simp
next
  case (Cons x xs y ys)
  then show ?case using reconstruction_row [of x y] by simp
qed

lemma reconstruction_loss_pointwise:
  assumes "same_shape2 ys pred_ys"
  shows "reconstruction_loss ys pred_ys = spec_reconstruction ys pred_ys"
proof -
  from assms have len: "length ys = length pred_ys"
    and rows: "list_all2 (\<lambda>r s. length r = length s) ys pred_ys"
    by (simp_all add: same_shape2_def)
  show ?thesis
    unfolding reconstruction_loss_def spec_reconstruction_def jnp_sum2_def
    by (simp only: reconstruction_rows [OF rows] sum_list_map2_nth [OF len])
qed

lemma kl_arrays:
  fixes mean :: vec
  assumes "length mean = length std"
  shows "map (\<lambda>x. x - 1)
           (map2 (-)
             (map2 (+) (map (\<lambda>m. m ^ 2) mean) (map (\<lambda>s. s ^ 2) std))
             (map (\<lambda>l. 2 * l) (map ln std)))
         = map2 (\<lambda>m s. m ^ 2 + s ^ 2 - 2 * ln s - 1) mean std"
  using assms by (induction mean std rule: list_induct2) simp_all

lemma variational_loss_pointwise:
  assumes "length mean = length std"
  shows "variational_loss mean std = spec_kl mean std"
  unfolding variational_loss_def spec_kl_def jnp_sum_def
  by (simp only: kl_arrays [OF assms] sum_list_map2_nth [OF assms])

text \<open>
  Claim C4. For arrays of matching shapes, \<^verbatim>\<open>_loss\<close> returns
  \<open>0.5 * sum((ys - pred_ys)\<^sup>2) + 0.5 * sum(mean\<^sup>2 + std\<^sup>2 - 2 log std - 1)\<close>, both sums
  taken over all elements and not averaged.
\<close>

theorem loss_is_spec_loss:
  assumes "same_shape2 ys pred_ys" and "length mean = length std"
  shows "LatentODE_loss ys pred_ys mean std = Inr (spec_loss ys pred_ys mean std)"
  using assms
  by (simp add: LatentODE_loss_def spec_loss_def reconstruction_loss_pointwise
      variational_loss_pointwise)

theorem loss_is_spec_loss_witness:
  "same_shape2 [[1, 2], [3, 5]] [[1, 1], [1, 1]] \<and> length [0, 1 :: real] = length [1, 1 :: real]
   \<and> LatentODE_loss [[1, 2], [3, 5]] [[1, 1], [1, 1]] [0, 1] [1, 1]
       = Inr (spec_loss [[1, 2], [3, 5]] [[1, 1], [1, 1]] [0, 1] [1, 1])
   \<and> spec_loss [[1, 2], [3, 5]] [[1, 1], [1, 1]] [0, 1] [1, 1] = 11"
proof -
  have s: "same_shape2 [[1, 2], [3, 5]] [[1, 1], [1, 1]]"
    by (simp add: same_shape2_def)
  have l: "length [0, 1 :: real] = length [1, 1 :: real]" by simp
  have v: "spec_loss [[1, 2], [3, 5]] [[1, 1], [1, 1]] [0, 1] [1, 1] = 11"
    by (simp add: spec_loss_def spec_reconstruction_def spec_kl_def lessThan_Suc
        numeral_2_eq_2)
  show ?thesis using s l v loss_is_spec_loss [OF s l] by simp
qed

text \<open>
  Claim C5. The KL term is exactly \<open>0\<close> at the zero mean and the all-ones standard
  deviation, whatever the latent dimension \<open>n\<close>.
\<close>

theorem kl_zero_at_standard_normal:
  "variational_loss (replicate n 0) (replicate n 1) = 0"
  by (simp add: variational_loss_def jnp_sum_def sum_list_replicate)

section \<open>Properties of the encoder\<close>

lemma encoder_hidden_is_summary:
  "length ts = length ys \<Longrightarrow>
   encoder_hidden m (map2 (#) ts ys) = spec_summary (rnn_cell m) (hidden_size m) (zip ts ys)"
proof -
  assume len: "length ts = length ys"
  have fold: "foldl (\<lambda>hidden data_i. rnn_cell m data_i hidden) h0 (rev (map2 (#) ts ys))
        = foldr (\<lambda>(t, y) h. rnn_cell m (t # y) h) (zip ts ys) h0" for h0
    by (simp add: foldl_conv_foldr foldr_map comp_def case_prod_unfold)
  have spec: "spec_summary cell n ps = foldr (\<lambda>(t, y) h. cell (t # y) h) ps (replicate n 0)"
    for cell n ps
    by (induction ps) auto
  show ?thesis
    by (simp only: encoder_hidden_def encoder_inputs_def fold spec)
qed

lemma encoder_inputs_decreasing:
  assumes "length ts = length ys" and "sorted_wrt (<) ts"
  shows "sorted_wrt (>) (map hd (encoder_inputs (map2 (#) ts ys)))"
proof -
  have "map hd (map2 (#) ts ys) = ts"
    using assms(1) by (induction ts ys rule: list_induct2) simp_all
  then have "map hd (encoder_inputs (map2 (#) ts ys)) = rev ts"
    by (simp add: encoder_inputs_def rev_map [symmetric])
  then show ?thesis
    using assms(2) by (simp add: sorted_wrt_rev)
qed

lemma encoder_hidden_length:
  assumes "valid_config m data_size" and "\<forall>x \<in> set data. length x = data_size + 1"
  shows "length (encoder_hidden m data) = hidden_size m"
proof -
  have "length (foldl (\<lambda>hidden data_i. rnn_cell m data_i hidden) h xs) = hidden_size m"
    if "length h = hidden_size m" and "\<forall>x \<in> set xs. length x = data_size + 1" for h xs
    using that
  proof (induction xs arbitrary: h)
    case Nil
    then show ?case by simp
  next
    case (Cons x xs)
    from Cons.prems assms(1) have "length (rnn_cell m x h) = hidden_size m"
      by (simp add: valid_config_def)
    with Cons show ?case by simp
  qed
  then show ?thesis using assms(2) by (simp add: encoder_hidden_def encoder_inputs_def)
qed

lemma encoder_data_rows:
  assumes "length ts = length ys" and "\<forall>y \<in> set ys. length y = data_size"
  shows "\<forall>x \<in> set (map2 (#) ts ys). length x = data_size + 1"
  using assms by (induction ts ys rule: list_induct2) simp_all

lemma latent_returns:
  assumes "valid_config m data_size"
    and "length ts = length ys"
    and "\<forall>y \<in> set ys. length y = data_size"
    and "length (jrandom_normal E k (latent_size m)) = latent_size m"
  shows "length (hidden_to_latent m (encoder_hidden m (map2 (#) ts ys))) = 2 * latent_size m"
    and "LatentODE_latent E m ts ys k
      = Inr (map2 fl_add
               (map Fin (take (latent_size m)
                  (hidden_to_latent m (encoder_hidden m (map2 (#) ts ys)))))
               (map2 fl_mul (map Fin (jrandom_normal E k (latent_size m)))
                  (map (jnp_exp E) (drop (latent_size m)
                     (hidden_to_latent m (encoder_hidden m (map2 (#) ts ys)))))),
             take (latent_size m) (hidden_to_latent m (encoder_hidden m (map2 (#) ts ys))),
             map (jnp_exp E) (drop (latent_size m)
               (hidden_to_latent m (encoder_hidden m (map2 (#) ts ys)))))"
proof -
  have rows: "\<forall>x \<in> set (map2 (#) ts ys). length x = data_size + 1"
    using assms(2,3) by (rule encoder_data_rows)
  have "length (encoder_hidden m (map2 (#) ts ys)) = hidden_size m"
    using assms(1) rows by (rule encoder_hidden_length)
  with assms(1)
  show lc: "length (hidden_to_latent m (encoder_hidden m (map2 (#) ts ys))) = 2 * latent_size m"
    by (simp add: valid_config_def)
  show "LatentODE_latent E m ts ys k
      = Inr (map2 fl_add
               (map Fin (take (latent_size m)
                  (hidden_to_latent m (encoder_hidden m (map2 (#) ts ys)))))
               (map2 fl_mul (map Fin (jrandom_normal E k (latent_size m)))
                  (map (jnp_exp E) (drop (latent_size m)
                     (hidden_to_latent m (encoder_hidden m (map2 (#) ts ys)))))),
             take (latent_size m) (hidden_to_latent m (encoder_hidden m (map2 (#) ts ys))),
             map (jnp_exp E) (drop (latent_size m)
               (hidden_to_latent m (encoder_hidden m (map2 (#) ts ys)))))"
    using assms(2,4) lc by (simp add: LatentODE_latent_def encoder_data_def Let_def)
qed

text \<open>
  Claim C7. The encoder puts the time in front of the observation, starts from the zero
  vector of dimension \<open>hidden_size\<close>, and applies the recurrent cell to the pairs from
  the last to the first, so in decreasing time when the grid is increasing. For a model
  with the shapes of \<^verbatim>\<open>__init__\<close> and observations of dimension \<open>data_size\<close>, \<^verbatim>\<open>_latent\<close>
  returns, and its mean and standard deviation are the two halves of \<open>hidden_to_latent\<close>
  applied to that summary.
\<close>

theorem encoder_reverse_chronological:
  assumes "length ts = length ys"
  shows "encoder_data ts ys = Inr (map2 (#) ts ys)
    \<and> encoder_hidden m (map2 (#) ts ys) = spec_summary (rnn_cell m) (hidden_size m) (zip ts ys)
    \<and> (sorted_wrt (<) ts \<longrightarrow> sorted_wrt (>) (map hd (encoder_inputs (map2 (#) ts ys))))
    \<and> (valid_config m data_size \<and> (\<forall>y \<in> set ys. length y = data_size)
         \<and> length (jrandom_normal E k (latent_size m)) = latent_size m \<longrightarrow>
        (\<exists>latent. LatentODE_latent E m ts ys k
           = Inr (latent,
                  take (latent_size m)
                    (hidden_to_latent m (spec_summary (rnn_cell m) (hidden_size m) (zip ts ys))),
                  map (jnp_exp E) (drop (latent_size m)
                    (hidden_to_latent m
                       (spec_summary (rnn_cell m) (hidden_size m) (zip ts ys)))))))
    \<and> (\<forall>latent mean std. LatentODE_latent E m ts ys k = Inr (latent, mean, std) \<longrightarrow>
         mean = take (latent_size m)
                  (hidden_to_latent m (spec_summary (rnn_cell m) (hidden_size m) (zip ts ys)))
         \<and> std = map (jnp_exp E) (drop (latent_size m)
                  (hidden_to_latent m (spec_summary (rnn_cell m) (hidden_size m) (zip ts ys)))))"
proof -
  have d: "encoder_data ts ys = Inr (map2 (#) ts ys)"
    using assms by (simp add: encoder_data_def)
  have s: "encoder_hidden m (map2 (#) ts ys) = spec_summary (rnn_cell m) (hidden_size m) (zip ts ys)"
    using assms by (rule encoder_hidden_is_summary)
  have o: "sorted_wrt (<) ts \<longrightarrow> sorted_wrt (>) (map hd (encoder_inputs (map2 (#) ts ys)))"
    using assms encoder_inputs_decreasing by blast
  have r: "valid_config m data_size \<and> (\<forall>y \<in> set ys. length y = data_size)
         \<and> length (jrandom_normal E k (latent_size m)) = latent_size m \<longrightarrow>
        (\<exists>latent. LatentODE_latent E m ts ys k
           = Inr (latent,
                  take (latent_size m)
                    (hidden_to_latent m (spec_summary (rnn_cell m) (hidden_size m) (zip ts ys))),
                  map (jnp_exp E) (drop (latent_size m)
                    (hidden_to_latent m
                       (spec_summary (rnn_cell m) (hidden_size m) (zip ts ys))))))"
    using latent_returns(2) [OF _ assms, of m data_size E k] by (auto simp: s)
  have l: "\<forall>latent mean std. LatentODE_latent E m ts ys k = Inr (latent, mean, std) \<longrightarrow>
         mean = take (latent_size m)
                  (hidden_to_latent m (spec_summary (rnn_cell m) (hidden_size m) (zip ts ys)))
         \<and> std = map (jnp_exp E) (drop (latent_size m)
                  (hidden_to_latent m (spec_summary (rnn_cell m) (hidden_size m) (zip ts ys))))"
    by (auto simp: LatentODE_latent_def d s [symmetric] Let_def split: if_splits)
  from d s o r l show ?thesis by blast
qed

lemma valid_config_example: "valid_config example_model 2"
  by (simp add: valid_config_def example_model_def Func_call_def)

lemma valid_config_recording: "valid_config recording_model 2"
  by (simp add: valid_config_def recording_model_def example_model_def Func_call_def)

lemma index_normal_length: "length (jrandom_normal example_externals k n) = n"
  by (simp add: example_externals_def index_normal_def)

theorem encoder_reverse_chronological_witness:
  "length [1, 2 :: real] = length [[0, 0], [5, 5 :: real]]
   \<and> encoder_data [1, 2] [[0, 0], [5, 5]] = Inr [[1, 0, 0], [2, 5, 5]]
   \<and> map hd (encoder_inputs [[1, 0, 0], [2, 5, 5 :: real]]) = [2, 1]
   \<and> encoder_hidden recording_model [[1, 0, 0], [2, 5, 5]] = [21, 21]
   \<and> spec_summary (rnn_cell recording_model) 2 [(1, [0, 0]), (2, [5, 5])] = [21, 21]
   \<and> LatentODE_latent example_externals recording_model [1, 2] [[0, 0], [5, 5]] (PRNGKey 0)
       = Inr ([Fin 21, Fin 21], [21, 21], [Fin 1, Fin 1])"
proof -
  have l: "length [1, 2 :: real] = length [[0, 0], [5, 5 :: real]]" by simp
  have v: "valid_config recording_model 2 \<and> (\<forall>y \<in> set [[0, 0], [5, 5 :: real]]. length y = 2)
      \<and> length (jrandom_normal example_externals (PRNGKey 0) (latent_size recording_model))
          = latent_size recording_model"
    by (simp add: valid_config_recording index_normal_length)
  have sizes: "hidden_size recording_model = 2" "latent_size recording_model = 2"
    by (simp_all add: recording_model_def example_model_def)
  have s: "spec_summary (rnn_cell recording_model) 2 [(1, [0, 0]), (2, [5, 5])] = [21, 21]"
    by (simp add: recording_model_def example_model_def numeral_2_eq_2)
  have h2l: "hidden_to_latent recording_model [21, 21] = [21, 21, 0, 0]"
    by (simp add: recording_model_def)
  have e: "jnp_exp example_externals 0 = Fin 1"
    by (simp add: example_externals_def float32_exp_def)
  have z: "zip [1, 2 :: real] [[0, 0], [5, 5 :: real]] = [(1, [0, 0]), (2, [5, 5])]" by simp
  note enc = encoder_reverse_chronological [OF l, of recording_model 2 example_externals
      "PRNGKey 0", unfolded sizes z s h2l]
  from enc v [unfolded sizes] obtain latent where
    run: "LatentODE_latent example_externals recording_model [1, 2] [[0, 0], [5, 5]] (PRNGKey 0)
        = Inr (latent, take 2 [21, 21, 0, 0],
               map (jnp_exp example_externals) (drop 2 [21, 21, 0, 0]))"
    by blast
  have n: "jrandom_normal example_externals (PRNGKey 0) 2 = [0, 0]"
    by (simp add: example_externals_def index_normal_def numeral_2_eq_2)
  from latent_returns(2) [of recording_model 2 "[1, 2]" "[[0, 0], [5, 5]]" example_externals
      "PRNGKey 0"] v run
  have "latent = map2 fl_add (map Fin (take 2 [21, 21, 0, 0]))
      (map2 fl_mul (map Fin [0, 0]) (map (jnp_exp example_externals) (drop 2 [21, 21, 0, 0])))"
    using enc by (simp add: sizes z s h2l n)
  then have "latent = [Fin 21, Fin 21]" by (simp add: e)
  with run enc s show ?thesis
    by (simp add: e encoder_inputs_def)
qed





section \<open>Properties of the decoder\<close>

lemma euler_states_length: "length (euler_states f y ts) = length ts"
  by (induction f y ts rule: euler_states.induct) simp_all

lemma euler_states_dim:
  assumes "\<forall>t y. length y = n \<longrightarrow> length (f t y) = n" and "length y0 = n"
  shows "\<forall>y \<in> set (euler_states f y0 ts). length y = n"
  using assms
proof (induction f y0 ts rule: euler_states.induct)
  case (3 f y t t' ts)
  from "3.prems" have "length (f t y) = n" by simp
  with "3.IH" "3.prems" show ?case by simp
qed simp_all

lemma solve_contract_euler: "solve_contract euler_solve"
  unfolding solve_contract_def euler_solve_def
  using euler_states_length euler_states_dim by (metis option.inject)

text \<open>
  Claim C1. For a valid configuration and a latent code of dimension \<open>latent_size\<close>,
  on every non-empty time grid \<^verbatim>\<open>_sample\<close> returns as many vectors as the grid has
  times, each of dimension \<open>data_size\<close>, unless the solver fails, and then the failure
  propagates.
\<close>

theorem sample_shape:
  assumes "solve_contract (diffeqsolve E)"
    and "valid_config m data_size"
    and "length latent = latent_size m"
    and "ts \<noteq> []"
  shows "(LatentODE_sample_ts E m ts latent = Inl SolveFailure
          \<and> diffeqsolve E (solver m) (hd ts) (last ts) (latent_to_hidden m latent) 0.4 ts = None)
       \<or> (\<exists>out. LatentODE_sample_ts E m ts latent = Inr out
            \<and> length out = length ts \<and> (\<forall>y \<in> set out. length y = data_size))"
proof (cases "diffeqsolve E (solver m) (hd ts) (last ts) (latent_to_hidden m latent) 0.4 ts")
  case None
  with assms(4) show ?thesis by (simp add: LatentODE_sample_ts_def)
next
  case (Some sol_ys)
  have y0: "length (latent_to_hidden m latent) = hidden_size m"
    using assms(2,3) by (simp add: valid_config_def)
  have f: "\<forall>t y. length y = length (latent_to_hidden m latent)
             \<longrightarrow> length (solver m t y) = length (latent_to_hidden m latent)"
    using assms(2) y0 by (simp add: valid_config_def)
  from assms(1) Some f have len: "length sol_ys = length ts"
    and dim: "\<forall>y \<in> set sol_ys. length y = hidden_size m"
    unfolding solve_contract_def y0 [symmetric] by blast+
  from dim assms(2) have "\<forall>y \<in> set (map (hidden_to_data m) sol_ys). length y = data_size"
    by (simp add: valid_config_def)
  with Some len assms(4) show ?thesis
    by (simp add: LatentODE_sample_ts_def)
qed

theorem sample_shape_witness:
  "solve_contract (diffeqsolve example_externals)
   \<and> valid_config example_model 2
   \<and> length [3, 4 :: real] = latent_size example_model
   \<and> [0, 1 / 2, 1 :: real] \<noteq> []
   \<and> LatentODE_sample_ts example_externals example_model [0, 1 / 2, 1] [3, 4]
       = Inr [[3, 4], [3, 4], [3, 4]]"
proof -
  have c: "solve_contract (diffeqsolve example_externals)"
    by (simp add: example_externals_def solve_contract_euler)
  have l: "length [3, 4 :: real] = latent_size example_model"
    by (simp add: example_model_def)
  have n: "[0, 1 / 2, 1 :: real] \<noteq> []" by simp
  have v: "LatentODE_sample_ts example_externals example_model [0, 1 / 2, 1] [3, 4]
       = Inr [[3, 4], [3, 4], [3, 4]]"
    by (simp add: LatentODE_sample_ts_def example_externals_def example_model_def
        euler_solve_def Func_call_def Let_def)
  show ?thesis
    using c valid_config_example l n v sample_shape [OF c valid_config_example l n] by simp
qed

section \<open>Properties of the minibatch loss\<close>

lemma collect_map_Inr: "collect (map Inr vs) = Inr vs"
  by (induction vs) simp_all

lemma collect_InrD: "collect rs = Inr vs \<Longrightarrow> rs = map Inr vs"
proof (induction rs arbitrary: vs rule: collect.induct)
  case 1
  then show ?case by simp
next
  case (2 e rs)
  then show ?case by simp
next
  case (3 v rs)
  from "3.prems" obtain ws where w: "collect rs = Inr ws" and vs: "vs = v # ws"
    by (auto split: sum.splits)
  from "3.IH" [OF w] vs show ?case by simp
qed

lemma collect_Inr_iff: "collect rs = Inr vs \<longleftrightarrow> rs = map Inr vs"
  using collect_map_Inr collect_InrD by blast

lemma mean_loss_Inr_iff:
  assumes "length ys_i = length ts_i" and "length keys = length ts_i"
  shows "mean_loss E m ts_i ys_i keys = Inr v \<longleftrightarrow>
     (\<exists>ls. mset (map (\<lambda>(ts, ys, k). LatentODE_train E m ts ys k) (zip ts_i (zip ys_i keys)))
             = mset (map Inr ls)
           \<and> v = fl_div_count (sum_mset (mset ls)) (length ts_i))"
proof
  assume "mean_loss E m ts_i ys_i keys = Inr v"
  then obtain ls where c: "collect (map (\<lambda>(ts, ys, k). LatentODE_train E m ts ys k)
        (zip ts_i (zip ys_i keys))) = Inr ls" and j: "jnp_mean ls = v"
    using assms by (auto simp: mean_loss_def vmap_train_def split: sum.splits)
  from c have eq: "map (\<lambda>(ts, ys, k). LatentODE_train E m ts ys k) (zip ts_i (zip ys_i keys))
      = map Inr ls"
    by (simp add: collect_Inr_iff)
  then have "length ls = length ts_i"
    using assms by (metis length_map length_zip min.idem)
  with j eq show "\<exists>ls. mset (map (\<lambda>(ts, ys, k). LatentODE_train E m ts ys k)
        (zip ts_i (zip ys_i keys))) = mset (map Inr ls)
      \<and> v = fl_div_count (sum_mset (mset ls)) (length ts_i)"
    by (auto simp: jnp_mean_def sum_mset_sum_list)
next
  assume "\<exists>ls. mset (map (\<lambda>(ts, ys, k). LatentODE_train E m ts ys k)
        (zip ts_i (zip ys_i keys))) = mset (map Inr ls)
      \<and> v = fl_div_count (sum_mset (mset ls)) (length ts_i)"
  then obtain ls where ms: "mset (map (\<lambda>(ts, ys, k). LatentODE_train E m ts ys k)
        (zip ts_i (zip ys_i keys))) = mset (map Inr ls)"
    and v: "v = fl_div_count (sum_mset (mset ls)) (length ts_i)"
    by blast
  let ?rs = "map (\<lambda>(ts, ys, k). LatentODE_train E m ts ys k) (zip ts_i (zip ys_i keys))"
  from ms have "set ?rs = set (map Inr ls)" by (rule mset_eq_setD)
  then have "\<forall>r \<in> set ?rs. \<exists>x. r = Inr x" by auto
  then obtain ls' where ls': "?rs = map Inr ls'"
    by (metis (no_types, lifting) ex_map_conv)
  with ms have "mset (map Inr ls') = (mset (map Inr ls) :: (error + fl) multiset)" by simp
  then have "image_mset Inr (mset ls') = (image_mset Inr (mset ls) :: (error + fl) multiset)"
    by simp
  then have same: "mset ls' = mset ls"
    using multiset.inj_map [OF inj_Inr] by (blast dest: injD)
  from ls' have len: "length ls' = length ts_i"
    using assms by (metis length_map length_zip min.idem)
  from ls' have "collect ?rs = Inr ls'" by (simp add: collect_Inr_iff)
  then show "mean_loss E m ts_i ys_i keys = Inr v"
    using assms len v same
    by (auto simp: mean_loss_def vmap_train_def jnp_mean_def sum_mset_sum_list [symmetric])
qed

text \<open>
  Claim C2, as amended. The mean of the per-element losses does not change when the
  batch elements are permuted together with the keys they are given: two batches whose
  (times, observations, key) triples are the same up to order have the same loss.
\<close>

theorem mean_loss_permutation_invariant:
  assumes "length ys_i = length ts_i" and "length keys = length ts_i"
    and "length ys_i' = length ts_i'" and "length keys' = length ts_i'"
    and "mset (zip ts_i' (zip ys_i' keys')) = mset (zip ts_i (zip ys_i keys))"
  shows "mean_loss E m ts_i' ys_i' keys' = Inr v \<longleftrightarrow> mean_loss E m ts_i ys_i keys = Inr v"
proof -
  let ?f = "\<lambda>(ts, ys, k). LatentODE_train E m ts ys k"
  from assms(5) have ms: "mset (map ?f (zip ts_i' (zip ys_i' keys')))
      = mset (map ?f (zip ts_i (zip ys_i keys)))"
    by (metis mset_map)
  from assms(5) have "size (mset (zip ts_i' (zip ys_i' keys'))) = size (mset (zip ts_i (zip ys_i keys)))"
    by simp
  then have len: "length ts_i' = length ts_i"
    using assms(1-4) by simp
  show ?thesis
    unfolding mean_loss_Inr_iff [OF assms(1,2)] mean_loss_Inr_iff [OF assms(3,4)] ms len ..
qed

lemma train_example:
  "LatentODE_train example_externals example_model [0, 1] [[a, a], [a, a]] (Child k n i)
     = Inr (Fin (2 * (a - real i) ^ 2))"
  by (simp add: LatentODE_train_def LatentODE_latent_def LatentODE_sample_ts_def
      LatentODE_loss_def encoder_data_def encoder_hidden_def encoder_inputs_def
      example_externals_def example_model_def index_normal_def euler_solve_def Func_call_def
      float32_exp_def reconstruction_loss_def variational_loss_def jnp_sum_def jnp_sum2_def
      same_shape2_def Let_def numeral_eq_Suc)

text \<open>
  Claim C2, as stated, fails: \<^verbatim>\<open>loss\<close> gives the \<open>j\<close>-th child key to the element at
  position \<open>j\<close>, so exchanging two trajectories exchanges their noise, and the scalar
  changes from \<open>0\<close> to \<open>2\<close> on this batch of two.
\<close>

theorem loss_depends_on_batch_order:
  "loss example_externals example_model [[0, 1], [0, 1]]
      [[[0, 0], [0, 0]], [[1, 1], [1, 1]]] (PRNGKey 0) = Inr (Fin 0)
   \<and> loss example_externals example_model [[0, 1], [0, 1]]
      [[[1, 1], [1, 1]], [[0, 0], [0, 0]]] (PRNGKey 0) = Inr (Fin 2)"
  using train_example [of 0 "PRNGKey 0" 2 0] train_example [of 1 "PRNGKey 0" 2 1]
    train_example [of 1 "PRNGKey 0" 2 0] train_example [of 0 "PRNGKey 0" 2 1]
  by (simp add: loss_def mean_loss_def vmap_train_def jrandom_split_def jnp_mean_def
      fl_div_count_def plus_fl_def zero_fl_def upt_rec numeral_2_eq_2)

theorem mean_loss_permutation_invariant_witness:
  "length [[[1, 1], [1, 1]], [[0, 0], [0, 0 :: real]]] = length [[0, 1], [0, 1 :: real]]
   \<and> length [Child (PRNGKey 0) 2 1, Child (PRNGKey 0) 2 0] = length [[0, 1], [0, 1 :: real]]
   \<and> mset (zip [[0, 1], [0, 1 :: real]]
        (zip [[[1, 1], [1, 1]], [[0, 0], [0, 0 :: real]]]
          [Child (PRNGKey 0) 2 1, Child (PRNGKey 0) 2 0]))
     = mset (zip [[0, 1], [0, 1 :: real]]
        (zip [[[0, 0], [0, 0]], [[1, 1], [1, 1 :: real]]]
          [Child (PRNGKey 0) 2 0, Child (PRNGKey 0) 2 1]))
   \<and> mean_loss example_externals example_model [[0, 1], [0, 1]]
        [[[0, 0], [0, 0]], [[1, 1], [1, 1]]] [Child (PRNGKey 0) 2 0, Child (PRNGKey 0) 2 1] = Inr (Fin 0)
   \<and> mean_loss example_externals example_model [[0, 1], [0, 1]]
        [[[1, 1], [1, 1]], [[0, 0], [0, 0]]] [Child (PRNGKey 0) 2 1, Child (PRNGKey 0) 2 0] = Inr (Fin 0)"
proof -
  have l1: "length [[[0, 0], [0, 0]], [[1, 1], [1, 1 :: real]]] = length [[0, 1], [0, 1 :: real]]"
    by simp
  have l2: "length [Child (PRNGKey 0) 2 0, Child (PRNGKey 0) 2 1] = length [[0, 1], [0, 1 :: real]]"
    by simp
  have l3: "length [[[1, 1], [1, 1]], [[0, 0], [0, 0 :: real]]] = length [[0, 1], [0, 1 :: real]]"
    by simp
  have l4: "length [Child (PRNGKey 0) 2 1, Child (PRNGKey 0) 2 0] = length [[0, 1], [0, 1 :: real]]"
    by simp
  have ms: "mset (zip [[0, 1], [0, 1 :: real]]
        (zip [[[1, 1], [1, 1]], [[0, 0], [0, 0 :: real]]]
          [Child (PRNGKey 0) 2 1, Child (PRNGKey 0) 2 0]))
     = mset (zip [[0, 1], [0, 1 :: real]]
        (zip [[[0, 0], [0, 0]], [[1, 1], [1, 1 :: real]]]
          [Child (PRNGKey 0) 2 0, Child (PRNGKey 0) 2 1]))"
    by (simp add: add_mset_commute)
  have v: "mean_loss example_externals example_model [[0, 1], [0, 1]]
        [[[0, 0], [0, 0]], [[1, 1], [1, 1]]] [Child (PRNGKey 0) 2 0, Child (PRNGKey 0) 2 1] = Inr (Fin 0)"
    using train_example [of 0 "PRNGKey 0" 2 0] train_example [of 1 "PRNGKey 0" 2 1]
    by (simp add: mean_loss_def vmap_train_def jnp_mean_def fl_div_count_def plus_fl_def
        zero_fl_def)
  from v mean_loss_permutation_invariant [OF l1 l2 l3 l4 ms, of example_externals example_model "Fin 0"]
  have "mean_loss example_externals example_model [[0, 1], [0, 1]]
        [[[1, 1], [1, 1]], [[0, 0], [0, 0]]] [Child (PRNGKey 0) 2 1, Child (PRNGKey 0) 2 0] = Inr (Fin 0)"
    by blast
  with l3 l4 ms v show ?thesis by blast
qed

section \<open>Properties of the dataloader\<close>

lemma dl_inner_yield:
  "dl_start s < int dataset_size \<Longrightarrow> dl_inner P dataset_size batch_size s = Some s"
  by (subst dl_inner.simps) simp

lemma dl_inner_again:
  "\<not> dl_start s < int dataset_size \<Longrightarrow>
   dl_inner P dataset_size batch_size s
     = dl_inner P dataset_size batch_size (reshuffle P dataset_size batch_size (dl_key s))"
  by (subst dl_inner.simps) simp

lemma dl_inner_returns:
  assumes "0 < dataset_size"
  shows "\<exists>s'. dl_inner P dataset_size batch_size s = Some s' \<and> dl_start s' < int dataset_size"
proof (cases "dl_start s < int dataset_size")
  case True
  then show ?thesis by (simp add: dl_inner_yield)
next
  case False
  have "dl_start (reshuffle P dataset_size batch_size (dl_key s)) < int dataset_size"
    using assms by (simp add: reshuffle_def)
  then show ?thesis
    using False by (simp add: dl_inner_again dl_inner_yield)
qed


lemma chunks_Nil [simp]: "chunks n [] = []"
  by (simp add: chunks.simps)

lemma chunks_Cons: "0 < n \<Longrightarrow> xs \<noteq> [] \<Longrightarrow> chunks n xs = take n xs # chunks n (drop n xs)"
  by (subst chunks.simps) simp

lemma concat_chunks: "0 < n \<Longrightarrow> concat (chunks n xs) = xs"
proof (induction n xs rule: chunks.induct)
  case (1 n xs)
  then show ?case by (cases "xs = []") (simp_all add: chunks_Cons)
qed

lemma chunks_bounds: "0 < n \<Longrightarrow> b \<in> set (chunks n xs) \<Longrightarrow> b \<noteq> [] \<and> length b \<le> n"
proof (induction n xs rule: chunks.induct)
  case (1 n xs)
  show ?case
  proof (cases "xs = []")
    case True
    with 1 show ?thesis by simp
  next
    case False
    with 1 show ?thesis by (auto simp: chunks_Cons)
  qed
qed

lemma chunks_full:
  "0 < n \<Longrightarrow> Suc j < length (chunks n xs) \<Longrightarrow> length (chunks n xs ! j) = n"
proof (induction n xs arbitrary: j rule: chunks.induct)
  case (1 n xs)
  from "1.prems" have ne: "xs \<noteq> []" by auto
  with "1.prems" have c: "chunks n xs = take n xs # chunks n (drop n xs)"
    by (simp add: chunks_Cons)
  show ?case
  proof (cases j)
    case 0
    with "1.prems" c have "chunks n (drop n xs) \<noteq> []" by auto
    then have "drop n xs \<noteq> []" by auto
    then have "n < length xs" by simp
    with 0 c show ?thesis by simp
  next
    case (Suc i)
    with "1.prems" c have "Suc i < length (chunks n (drop n xs))" by simp
    with "1.IH" "1.prems"(1) ne have "length (chunks n (drop n xs) ! i) = n" by simp
    with Suc c show ?thesis by simp
  qed
qed

lemma chunks_short_iff:
  "0 < n \<Longrightarrow> (\<exists>b \<in> set (chunks n xs). length b < n) \<longleftrightarrow> \<not> n dvd length xs"
proof (induction n xs rule: chunks.induct)
  case (1 n xs)
  show ?case
  proof (cases "xs = []")
    case True
    then show ?thesis by simp
  next
    case ne: False
    with "1.prems" have c: "chunks n xs = take n xs # chunks n (drop n xs)"
      by (simp add: chunks_Cons)
    from "1.IH" "1.prems" ne
    have ih: "(\<exists>b \<in> set (chunks n (drop n xs)). length b < n) \<longleftrightarrow> \<not> n dvd length (drop n xs)"
      by simp
    show ?thesis
    proof (cases "length xs < n")
      case True
      note short = True
      moreover from ne have "0 < length xs" by simp
      ultimately have "\<not> n dvd length xs" by (auto dest: dvd_imp_le)
      with short c show ?thesis by auto
    next
      case False
      then have "n dvd length xs \<longleftrightarrow> n dvd (length xs - n)"
        by (metis dvd_minus_self not_less)
      with False c ih show ?thesis by auto
    qed
  qed
qed

lemma py_slice_block:
  assumes "0 \<le> i" and "0 \<le> b"
  shows "py_slice xs i (i + b) = take (nat b) (drop (nat i) xs)"
proof (cases "nat i \<le> length xs")
  case True
  have "take (min (length xs) (nat (i + b)) - nat i) (drop (nat i) xs)
      = take (nat b) (drop (nat i) xs)"
  proof (cases "nat (i + b) \<le> length xs")
    case True
    with assms have "min (length xs) (nat (i + b)) - nat i = nat b" by (simp add: nat_add_distrib)
    then show ?thesis by simp
  next
    case False
    with assms have "length (drop (nat i) xs) \<le> nat b" by (simp add: nat_add_distrib)
    moreover from False have "length (drop (nat i) xs) \<le> min (length xs) (nat (i + b)) - nat i"
      by simp
    ultimately show ?thesis by simp
  qed
  with assms True show ?thesis
    by (simp add: py_slice_def py_clamp_def Let_def min_absorb2)
next
  case False
  with assms show ?thesis by (simp add: py_slice_def py_clamp_def Let_def)
qed

lemma epoch_batches_chunks:
  assumes "1 \<le> batch_size"
    and "0 \<le> dl_start s"
    and "dl_end s = dl_start s + batch_size"
    and "length (dl_perm s) = dataset_size"
  shows "epoch_batches dataset_size batch_size s
         = Some (chunks (nat batch_size) (drop (nat (dl_start s)) (dl_perm s)))"
  using assms(2-4)
proof (induction "dataset_size - nat (dl_start s)" arbitrary: s rule: less_induct)
  case less
  show ?case
  proof (cases "dl_start s < int dataset_size")
    case True
    let ?s' = "advance batch_size s"
    have s': "dl_start ?s' = dl_start s + batch_size" "dl_end ?s' = dl_start ?s' + batch_size"
      "dl_perm ?s' = dl_perm s"
      using less.prems by (simp_all add: advance_def)
    have "dataset_size - nat (dl_start ?s') < dataset_size - nat (dl_start s)"
      using True assms(1) less.prems(1) s'(1) by linarith
    moreover have "0 \<le> dl_start ?s'" using assms(1) less.prems(1) s'(1) by linarith
    ultimately have ih: "epoch_batches dataset_size batch_size ?s'
         = Some (chunks (nat batch_size) (drop (nat (dl_start ?s')) (dl_perm ?s')))"
      using less.hyps s'(2) s'(3) less.prems(3) by simp
    have bp: "batch_perm s = take (nat batch_size) (drop (nat (dl_start s)) (dl_perm s))"
      using less.prems(1,2) assms(1) by (simp add: batch_perm_def py_slice_block)
    have ne: "drop (nat (dl_start s)) (dl_perm s) \<noteq> []"
      using True less.prems(1,3) by simp
    have dd: "drop (nat batch_size) (drop (nat (dl_start s)) (dl_perm s))
        = drop (nat (dl_start ?s')) (dl_perm ?s')"
      using assms(1) less.prems(1) by (simp add: s' nat_add_distrib add.commute)
    have "chunks (nat batch_size) (drop (nat (dl_start s)) (dl_perm s))
        = batch_perm s # chunks (nat batch_size) (drop (nat (dl_start ?s')) (dl_perm ?s'))"
    proof -
      have "0 < nat batch_size" using assms(1) by simp
      from chunks_Cons [OF this ne] show ?thesis by (simp only: bp dd)
    qed
    with ih True show ?thesis
      by (subst epoch_batches.simps) simp
  next
    case False
    with less.prems(1,3) have "drop (nat (dl_start s)) (dl_perm s) = []" by simp
    with False show ?thesis
      by (subst epoch_batches.simps) simp
  qed
qed

lemma epoch_follows_generator:
  "epoch_batches dataset_size batch_size s = Some (b # rest) \<Longrightarrow>
     dl_inner P dataset_size batch_size s = Some s \<and> batch_perm s = b
     \<and> epoch_batches dataset_size batch_size (advance batch_size s) = Some rest"
  by (subst (asm) epoch_batches.simps)
     (auto simp: dl_inner_yield split: if_splits bind_splits)

lemma epoch_ends_with_reshuffle:
  "epoch_batches dataset_size batch_size s = Some [] \<Longrightarrow>
     dl_inner P dataset_size batch_size s
       = dl_inner P dataset_size batch_size (reshuffle P dataset_size batch_size (dl_key s))"
  by (subst (asm) epoch_batches.simps)
     (auto simp: dl_inner_again split: if_splits bind_splits)

lemma exactly_one_batch:
  assumes "distinct (concat bs)" and "i \<in> set (concat bs)"
  shows "\<exists>!j. j < length bs \<and> i \<in> set (bs ! j)"
  using assms
proof (induction bs)
  case Nil
  then show ?case by simp
next
  case (Cons b bs)
  show ?case
  proof (cases "i \<in> set b")
    case True
    with Cons.prems have out: "i \<notin> set (concat bs)" by auto
    have "0 < length (b # bs) \<and> i \<in> set ((b # bs) ! 0)" using True by simp
    moreover have "j = 0" if "j < length (b # bs) \<and> i \<in> set ((b # bs) ! j)" for j
    proof (cases j)
      case (Suc k)
      with that have "k < length bs" "i \<in> set (bs ! k)" by simp_all
      then have "i \<in> set (concat bs)" by auto
      with out show ?thesis by simp
    qed simp
    ultimately show ?thesis by blast
  next
    case False
    with Cons.prems have "distinct (concat bs)" "i \<in> set (concat bs)" by auto
    with Cons.IH obtain k where k: "k < length bs" "i \<in> set (bs ! k)"
      and uniq: "\<And>j. j < length bs \<and> i \<in> set (bs ! j) \<Longrightarrow> j = k"
      by blast
    have "Suc k < length (b # bs) \<and> i \<in> set ((b # bs) ! Suc k)" using k by simp
    moreover have "j = Suc k" if "j < length (b # bs) \<and> i \<in> set ((b # bs) ! j)" for j
    proof (cases j)
      case 0
      with that False show ?thesis by simp
    next
      case (Suc l)
      with that have "l < length bs \<and> i \<in> set (bs ! l)" by simp
      from uniq [OF this] Suc show ?thesis by simp
    qed
    ultimately show ?thesis by blast
  qed
qed

text \<open>
  Claim C9. When \<^verbatim>\<open>jrandom.permutation\<close> returns a permutation of the indices and
  \<open>batch_size\<close> is at least \<open>1\<close>, the batches of an epoch are the consecutive blocks of
  the permutation: every index of the dataset is in exactly one batch, no batch is
  empty or longer than \<open>batch_size\<close>, every batch but the last has \<open>batch_size\<close>
  elements, and a shorter batch exists exactly when \<open>batch_size\<close> does not divide the
  size of the dataset.
\<close>

theorem epoch_partitions_dataset:
  assumes "1 \<le> batch_size"
    and "mset (permutation k [0..<dataset_size]) = mset [0..<dataset_size]"
  shows "\<exists>batches.
      epoch_batches dataset_size batch_size (reshuffle permutation dataset_size batch_size k)
        = Some batches
    \<and> concat batches = permutation k [0..<dataset_size]
    \<and> mset (concat batches) = mset [0..<dataset_size]
    \<and> (\<forall>i < dataset_size. \<exists>!j. j < length batches \<and> i \<in> set (batches ! j))
    \<and> (\<forall>b \<in> set batches. b \<noteq> [] \<and> int (length b) \<le> batch_size)
    \<and> (\<forall>j. Suc j < length batches \<longrightarrow> int (length (batches ! j)) = batch_size)
    \<and> ((\<exists>b \<in> set batches. int (length b) < batch_size) \<longleftrightarrow> \<not> batch_size dvd int dataset_size)"
proof -
  let ?perm = "permutation k [0..<dataset_size]"
  let ?s = "reshuffle permutation dataset_size batch_size k"
  let ?n = "nat batch_size"
  define batches where "batches = chunks ?n ?perm"
  have n: "0 < ?n" and bn: "int ?n = batch_size" using assms(1) by simp_all
  have len: "length ?perm = dataset_size"
    using assms(2) by (metis length_upt minus_nat.diff_0 size_mset)
  have run: "epoch_batches dataset_size batch_size ?s = Some batches"
    using epoch_batches_chunks [of batch_size ?s dataset_size] assms(1) len
    by (simp add: reshuffle_def batches_def)
  have cc: "concat batches = ?perm"
    using n by (simp add: batches_def concat_chunks)
  have ms: "mset (concat batches) = mset [0..<dataset_size]"
    using cc assms(2) by simp
  have dist: "distinct (concat batches)"
    using ms by (metis distinct_upt mset_eq_imp_distinct_iff)
  have mem: "i \<in> set (concat batches)" if "i < dataset_size" for i
    using ms that by (metis atLeastLessThan_iff mset_eq_setD set_upt zero_le)
  have one: "\<forall>i < dataset_size. \<exists>!j. j < length batches \<and> i \<in> set (batches ! j)"
    using exactly_one_batch [OF dist mem] by blast
  have bd: "\<forall>b \<in> set batches. b \<noteq> [] \<and> int (length b) \<le> batch_size"
    using chunks_bounds [OF n] bn unfolding batches_def by (metis of_nat_le_iff)
  have full: "\<forall>j. Suc j < length batches \<longrightarrow> int (length (batches ! j)) = batch_size"
    using chunks_full [OF n] bn unfolding batches_def by metis
  have "(\<exists>b \<in> set batches. length b < ?n) \<longleftrightarrow> \<not> ?n dvd dataset_size"
    using chunks_short_iff [OF n, of ?perm] len by (simp add: batches_def)
  moreover have "?n dvd dataset_size \<longleftrightarrow> batch_size dvd int dataset_size"
    using bn by (metis int_dvd_int_iff)
  moreover have "length b < ?n \<longleftrightarrow> int (length b) < batch_size" for b :: "nat list"
    using bn by linarith
  ultimately have short: "(\<exists>b \<in> set batches. int (length b) < batch_size)
      \<longleftrightarrow> \<not> batch_size dvd int dataset_size"
    by simp
  from run cc ms one bd full short show ?thesis by blast
qed

theorem epoch_partitions_dataset_witness:
  "(1 :: int) \<le> 2
   \<and> mset (rev_permutation (PRNGKey 0) [0..<5]) = mset [0..<5]
   \<and> epoch_batches 5 2 (reshuffle rev_permutation 5 2 (PRNGKey 0)) = Some [[4, 3], [2, 1], [0]]
   \<and> concat [[4, 3], [2, 1], [0]] = rev_permutation (PRNGKey 0) [0..<5]
   \<and> \<not> (2 :: int) dvd int 5"
proof -
  have b: "(1 :: int) \<le> 2" by simp
  have p: "mset (rev_permutation (PRNGKey 0) [0..<5]) = mset [0..<5]"
    by (simp add: rev_permutation_def)
  have perm: "rev_permutation (PRNGKey 0) [0..<5] = [4, 3, 2, 1, 0]"
    by (simp add: rev_permutation_def upt_rec)
  have v: "epoch_batches 5 2 (reshuffle rev_permutation 5 2 (PRNGKey 0))
      = Some [[4, 3], [2, 1], [0]]"
    using epoch_batches_chunks [of 2 "reshuffle rev_permutation 5 2 (PRNGKey 0)" 5]
    by (simp add: reshuffle_def perm chunks.simps)
  from epoch_partitions_dataset [of 2 rev_permutation "PRNGKey 0" 5, OF b p] v
  have "concat [[4, 3], [2, 1], [0]] = rev_permutation (PRNGKey 0) [0..<5]
      \<and> ((\<exists>b \<in> set [[4, 3], [2, 1], [0::nat]]. int (length b) < 2) \<longleftrightarrow> \<not> (2 :: int) dvd int 5)"
    by auto
  then show ?thesis using b p v by auto
qed

section \<open>Properties of the training loop\<close>

lemma div_succ:
  fixes k se :: int
  assumes "1 \<le> se"
  shows "(k + 1) div se = k div se + (if (k + 1) mod se = 0 then 1 else 0)"
proof -
  define q r where "q = (k + 1) div se" and "r = (k + 1) mod se"
  have eq: "k + 1 = se * q + r" and r: "0 \<le> r" "r < se"
    using assms by (simp_all add: q_def r_def)
  show ?thesis
  proof (cases "r = 0")
    case True
    have "k = se * (q - 1) + (se - 1)" using eq True by (simp add: algebra_simps)
    from int_div_pos_eq [OF this] assms have "k div se = q - 1" by simp
    with True show ?thesis by (simp add: q_def [symmetric] r_def [symmetric])
  next
    case False
    have "k = se * q + (r - 1)" using eq by simp
    from int_div_pos_eq [OF this] r False have "k div se = q" by simp
    with False show ?thesis by (simp add: q_def [symmetric] r_def [symmetric])
  qed
qed

lemma count_multiples:
  fixes k se :: int
  assumes "1 \<le> se" and "0 \<le> k"
  shows "int (length (filter (\<lambda>s. s mod se = 0) [0..k])) = 1 + k div se"
  using assms(2)
proof (induction k rule: int_ge_induct)
  case base
  show ?case by simp
next
  case (step i)
  have "[0..i + 1] = [0..i] @ [i + 1]"
    using step.hyps by (simp add: upto_rec2)
  with step.IH div_succ [OF assms(1), of i] show ?case by simp
qed

lemma plot_count:
  fixes steps save_every :: int
  assumes "1 \<le> steps" and "1 \<le> save_every"
  shows "num_plots steps save_every
    = Inr (int (length (filter (plot_branch steps save_every) [0..steps - 1])))"
proof -
  have split: "[0..steps - 1] = [0..steps - 2] @ [steps - 1]"
    using assms(1) upto_rec2 [of 0 "steps - 1"] by simp
  have "filter (plot_branch steps save_every) [0..steps - 2]
      = filter (\<lambda>s. s mod save_every = 0) [0..steps - 2]"
    by (rule filter_cong) (auto simp: plot_branch_def)
  then have len: "int (length (filter (plot_branch steps save_every) [0..steps - 1]))
      = int (length (filter (\<lambda>s. s mod save_every = 0) [0..steps - 2])) + 1"
    by (simp add: split plot_branch_def)
  show ?thesis
  proof (cases "steps = 1")
    case True
    then show ?thesis using assms(2) by (simp add: num_plots_def plot_branch_def)
  next
    case False
    with assms(1) have k: "0 \<le> steps - 2" by simp
    have "(steps - 1) div save_every
        = (steps - 2) div save_every + (if (steps - 1) mod save_every = 0 then 1 else 0)"
      using div_succ [OF assms(2), of "steps - 2"] by simp
    with count_multiples [OF assms(2) k] len assms(2) show ?thesis
      by (simp add: num_plots_def Let_def)
  qed
qed

lemma latent_error: "LatentODE_latent E m ts ys k = Inl e \<Longrightarrow> e = ShapeError"
  by (auto simp: LatentODE_latent_def encoder_data_def Let_def split: if_splits)

lemma sample_ts_error:
  "LatentODE_sample_ts E m ts latent = Inl e \<Longrightarrow> e = IndexError \<or> e = SolveFailure"
  by (auto simp: LatentODE_sample_ts_def Let_def split: if_splits option.splits)

lemma loss_error: "LatentODE_loss ys pred_ys mean std = Inl e \<Longrightarrow> e = ShapeError"
  by (auto simp: LatentODE_loss_def split: if_splits)

lemma train_error: "LatentODE_train E m ts ys k = Inl e \<Longrightarrow> e \<noteq> StopIteration"
  by (auto simp: LatentODE_train_def split: sum.splits prod.splits if_splits option.splits
      dest: latent_error sample_ts_error loss_error)

lemma collect_error: "collect rs = Inl e \<Longrightarrow> Inl e \<in> set rs"
  by (induction rs rule: collect.induct) (auto split: sum.splits)

lemma minibatch_loss_error: "loss E m ts_i ys_i key_i = Inl e \<Longrightarrow> e \<noteq> StopIteration"
proof
  assume l: "loss E m ts_i ys_i key_i = Inl e" and e: "e = StopIteration"
  let ?keys = "jrandom_split key_i (length ts_i)"
  from l e have "vmap_train E m ts_i ys_i ?keys = Inl StopIteration"
    by (auto simp: loss_def mean_loss_def Let_def split: sum.splits)
  then have "Inl StopIteration \<in> set (map (\<lambda>(ts, ys, k). LatentODE_train E m ts ys k)
      (zip ts_i (zip ys_i ?keys)))"
    by (auto simp: vmap_train_def split: if_splits dest: collect_error)
  then show False by (auto dest: train_error [OF sym])
qed

lemma sample_error: "LatentODE_sample E m ts k = Inl e \<Longrightarrow> e \<noteq> StopIteration"
  by (auto simp: LatentODE_sample_def Let_def dest: sample_ts_error)

lemma dataloader_next_error:
  "dataloader_next P arrays batch_size g = Some (Inl e) \<Longrightarrow> e = AssertionError"
  by (auto simp: dataloader_next_def Let_def split: gen.splits if_splits)

lemma dataloader_next_returns:
  assumes "0 < length (fst arrays)"
  shows "\<exists>r. dataloader_next P arrays batch_size g = Some r"
proof (cases g)
  case (Unstarted k)
  from dl_inner_returns [OF assms] obtain s' where
    "dl_inner P (length (fst arrays)) batch_size
       (reshuffle P (length (fst arrays)) batch_size k) = Some s'"
    by blast
  with Unstarted show ?thesis by (simp add: dataloader_next_def Let_def)
next
  case (Suspended s)
  from dl_inner_returns [OF assms] obtain s' where
    "dl_inner P (length (fst arrays)) batch_size (advance batch_size s) = Some s'"
    by blast
  with Suspended show ?thesis by (simp add: dataloader_next_def Let_def)
qed

lemma train_and_plot_effect:
  assumes "train_and_plot E L C step st ts_i ys_i = Inr st'"
  shows "ls_updates st' = Suc (ls_updates st)
    \<and> ls_axs st' = ls_axs st
        + (if plot_branch (cfg_steps C) (cfg_save_every C) step then 1 else 0)
    \<and> ls_rng_log st' = ls_rng_log st @ loss_rng_calls (ls_train_key st) (length ts_i)
        @ [Split (ls_train_key st) 1]
        @ (if plot_branch (cfg_steps C) (cfg_save_every C) step
           then sample_rng_calls (cfg_sample_key C) else [])"
  using assms
  by (auto simp: train_and_plot_def Let_def split: sum.splits if_splits prod.splits)

lemma train_and_plot_no_stop:
  assumes "plot_branch (cfg_steps C) (cfg_save_every C) step \<longrightarrow> ls_axs st < cfg_num_axes C"
  shows "train_and_plot E L C step st ts_i ys_i \<noteq> Inl StopIteration"
  using assms
  by (auto simp: train_and_plot_def Let_def split: sum.splits if_splits prod.splits
      dest: minibatch_loss_error sample_error)

lemma loop_body_returns:
  assumes "0 < length (fst (cfg_arrays C))"
  shows "\<exists>r. loop_body E L C step st = Some r
    \<and> (\<forall>st'. r = Inr st' \<longrightarrow> ls_updates st' = Suc (ls_updates st))"
proof -
  from dataloader_next_returns [OF assms] obtain r where
    r: "dataloader_next (jrandom_permutation E) (cfg_arrays C) (cfg_batch_size C) (ls_loader st)
        = Some r"
    by blast
  show ?thesis
  proof (cases r)
    case (Inl e)
    with r show ?thesis by (simp add: loop_body_def)
  next
    case (Inr b)
    obtain ts_i ys_i g where b: "b = ((ts_i, ys_i), g)" by (metis surj_pair)
    show ?thesis
      using r Inr b train_and_plot_effect [of E L C step "st\<lparr>ls_loader := g\<rparr>" ts_i ys_i]
      by (auto simp: loop_body_def)
  qed
qed

lemma train_loop_returns:
  assumes "0 < length (fst (cfg_arrays C))"
  shows "\<exists>r. train_loop E L C xs st = Some r
    \<and> (\<forall>st'. r = Inr st' \<longrightarrow> ls_updates st' = ls_updates st + length xs)"
proof (induction xs arbitrary: st)
  case Nil
  show ?case by simp
next
  case (Cons step rest)
  from loop_body_returns [OF assms] obtain r where
    r: "loop_body E L C step st = Some r"
    and u: "\<forall>st'. r = Inr st' \<longrightarrow> ls_updates st' = Suc (ls_updates st)"
    by blast
  show ?case
  proof (cases r)
    case (Inl e)
    with r show ?thesis by simp
  next
    case (Inr st1)
    from Cons.IH [of st1] obtain r' where
      "train_loop E L C rest st1 = Some r'"
      "\<forall>st'. r' = Inr st' \<longrightarrow> ls_updates st' = ls_updates st1 + length rest"
      by blast
    with r Inr u show ?thesis by simp
  qed
qed

lemma loop_body_axes:
  assumes "plot_branch (cfg_steps C) (cfg_save_every C) step \<longrightarrow> ls_axs st < cfg_num_axes C"
  shows "loop_body E L C step st \<noteq> Some (Inl StopIteration)
    \<and> (\<forall>st'. loop_body E L C step st = Some (Inr st') \<longrightarrow>
          ls_axs st' = ls_axs st
            + (if plot_branch (cfg_steps C) (cfg_save_every C) step then 1 else 0))"
proof (cases "dataloader_next (jrandom_permutation E) (cfg_arrays C) (cfg_batch_size C)
    (ls_loader st)")
  case None
  then show ?thesis by (simp add: loop_body_def)
next
  case (Some r)
  show ?thesis
  proof (cases r)
    case (Inl e)
    with Some have "e = AssertionError" by (auto dest: dataloader_next_error)
    with Some Inl show ?thesis by (simp add: loop_body_def)
  next
    case (Inr b)
    obtain ts_i ys_i g where b: "b = ((ts_i, ys_i), g)" by (metis surj_pair)
    have "train_and_plot E L C step (st\<lparr>ls_loader := g\<rparr>) ts_i ys_i \<noteq> Inl StopIteration"
      using assms by (intro train_and_plot_no_stop) simp
    then show ?thesis
      using Some Inr b train_and_plot_effect [of E L C step "st\<lparr>ls_loader := g\<rparr>" ts_i ys_i]
      by (auto simp: loop_body_def)
  qed
qed

lemma train_loop_axes:
  assumes "ls_axs st + length (filter (plot_branch (cfg_steps C) (cfg_save_every C)) xs)
      \<le> cfg_num_axes C"
  shows "train_loop E L C xs st \<noteq> Some (Inl StopIteration)
    \<and> (\<forall>st'. train_loop E L C xs st = Some (Inr st') \<longrightarrow>
          ls_axs st' = ls_axs st
            + length (filter (plot_branch (cfg_steps C) (cfg_save_every C)) xs))"
  using assms
proof (induction xs arbitrary: st)
  case Nil
  show ?case by simp
next
  case (Cons step rest)
  let ?p = "plot_branch (cfg_steps C) (cfg_save_every C)"
  from Cons.prems have room: "?p step \<longrightarrow> ls_axs st < cfg_num_axes C" by auto
  note body = loop_body_axes [OF room, of E L]
  show ?case
  proof (cases "loop_body E L C step st")
    case None
    then show ?thesis by simp
  next
    case (Some r)
    show ?thesis
    proof (cases r)
      case (Inl e)
      with Some body show ?thesis by auto
    next
      case (Inr st1)
      with Some body have a: "ls_axs st1 = ls_axs st + (if ?p step then 1 else 0)" by simp
      with Cons.prems have "ls_axs st1 + length (filter ?p rest) \<le> cfg_num_axes C" by auto
      from Cons.IH [OF this] Some Inr a show ?thesis by auto
    qed
  qed
qed

lemma main_loop_terminates:
  assumes "0 < length (fst arrays)"
  shows "\<exists>r. main_loop E L arrays batch_size steps save_every model opt_state
                loader_key train_key sample_key = Some r
    \<and> (\<forall>st. r = Inr st \<longrightarrow> ls_updates st = nat steps)"
proof (cases "num_plots steps save_every")
  case (Inl e)
  then show ?thesis by (simp add: main_loop_def)
next
  case (Inr n)
  let ?st = "\<lparr>ls_model = model, ls_opt_state = opt_state, ls_train_key = train_key,
             ls_loader = Unstarted loader_key, ls_axs = 0, ls_updates = 0, ls_rng_log = []\<rparr>"
  show ?thesis
  proof (cases "make_axes n")
    case (Inl e)
    with Inr show ?thesis by (simp add: main_loop_def)
  next
    case axes: (Inr num_axes)
    let ?C = "\<lparr>cfg_arrays = arrays, cfg_batch_size = batch_size, cfg_steps = steps,
               cfg_save_every = save_every, cfg_sample_key = sample_key,
               cfg_num_axes = num_axes\<rparr>"
    have "0 < length (fst (cfg_arrays ?C))" using assms by simp
    from train_loop_returns [OF this, of E L "[0..steps - 1]" ?st] obtain r where
      "train_loop E L ?C [0..steps - 1] ?st = Some r"
      "\<forall>st'. r = Inr st' \<longrightarrow> ls_updates st' = ls_updates ?st + length [0..steps - 1]"
      by blast
    with Inr axes show ?thesis by (simp add: main_loop_def)
  qed
qed

text \<open>
  Claim C10. For \<open>steps \<ge> 1\<close> and \<open>save_every \<ge> 1\<close> the number of steps of
  \<^verbatim>\<open>range(steps)\<close> that take the plotting branch is \<open>num_plots\<close>, so \<^verbatim>\<open>next(axs)\<close> never
  raises \<^verbatim>\<open>StopIteration\<close>, and a loop that completes has taken exactly \<open>num_plots\<close>
  axes.
\<close>

theorem plots_match_axes:
  assumes "1 \<le> steps" and "1 \<le> save_every"
  shows "num_plots steps save_every
      = Inr (int (length (filter (plot_branch steps save_every) [0..steps - 1])))
    \<and> main_loop E L arrays batch_size steps save_every model opt_state
         loader_key train_key sample_key \<noteq> Some (Inl StopIteration)
    \<and> (\<forall>st. main_loop E L arrays batch_size steps save_every model opt_state
               loader_key train_key sample_key = Some (Inr st) \<longrightarrow>
          num_plots steps save_every = Inr (int (ls_axs st)))"
proof -
  let ?n = "length (filter (plot_branch steps save_every) [0..steps - 1])"
  let ?C = "\<lparr>cfg_arrays = arrays, cfg_batch_size = batch_size, cfg_steps = steps,
             cfg_save_every = save_every, cfg_sample_key = sample_key, cfg_num_axes = ?n\<rparr>"
  let ?st = "\<lparr>ls_model = model, ls_opt_state = opt_state, ls_train_key = train_key,
             ls_loader = Unstarted loader_key, ls_axs = 0, ls_updates = 0, ls_rng_log = []\<rparr>"
  have np: "num_plots steps save_every = Inr (int ?n)"
    using assms by (rule plot_count)
  show ?thesis
  proof (cases "make_axes (int ?n)")
    case (Inl e)
    then have "e \<noteq> StopIteration" by (auto simp: make_axes_def split: if_splits)
    with Inl np show ?thesis by (simp add: main_loop_def)
  next
    case (Inr num_axes)
    then have "num_axes = ?n" by (auto simp: make_axes_def split: if_splits)
    with Inr have main: "main_loop E L arrays batch_size steps save_every model opt_state
         loader_key train_key sample_key = train_loop E L ?C [0..steps - 1] ?st"
      by (simp add: main_loop_def np)
    have "ls_axs ?st + length (filter (plot_branch (cfg_steps ?C) (cfg_save_every ?C))
        [0..steps - 1]) \<le> cfg_num_axes ?C"
      by simp
    from train_loop_axes [OF this, of E L] np main show ?thesis by simp
  qed
qed






lemma linspace_nonempty: "jnp_linspace a b 300 \<noteq> []"
proof -
  have "length (jnp_linspace a b 300) = 300" by (simp add: jnp_linspace_def)
  then show ?thesis by auto
qed






lemma make_axes_two: "2 \<le> n \<Longrightarrow> make_axes (int n) = Inr n"
  by (simp add: make_axes_def)



lemma euler_zero_field:
  "euler_states (Func_call 1 (\<lambda>y. map (\<lambda>x. 0) y)) y ts = replicate (length ts) y"
proof (induction "Func_call 1 (\<lambda>y. map (\<lambda>x. 0::real) y)" y ts rule: euler_states.induct)
  case (3 y t t' ts)
  have "map2 (\<lambda>yi di. yi + (t' - t) * di) y (Func_call 1 (\<lambda>y. map (\<lambda>x. 0) y) t y) = y"
    by (induction y) (simp_all add: Func_call_def)
  with 3 show ?case by simp
qed simp_all

lemma sample_example:
  assumes "ts \<noteq> []"
  shows "LatentODE_sample example_externals example_model ts k
    = Inr (replicate (length ts) (replicate 2 (real (key_index k))))"
  using assms
  by (simp add: LatentODE_sample_def LatentODE_sample_ts_def example_externals_def
      example_model_def index_normal_def euler_solve_def euler_zero_field Let_def)

lemma example_run:
  "main_loop example_externals frozen_learner example_arrays 2 2 1 example_model ()
     (Child (PRNGKey 5678) 5 2) (Child (PRNGKey 5678) 5 3) (Child (PRNGKey 5678) 5 4)
   = Some (Inr
       \<lparr>ls_model = example_model, ls_opt_state = (),
        ls_train_key = Child (Child (Child (PRNGKey 5678) 5 3) 1 0) 1 0,
        ls_loader = Suspended
          \<lparr>dl_perm = [1, 0], dl_key = Child (Child (Child (PRNGKey 5678) 5 2) 1 0) 1 0,
           dl_start = 0, dl_end = 2\<rparr>,
        ls_axs = 2, ls_updates = 2,
        ls_rng_log =
          [Split (Child (PRNGKey 5678) 5 3) 2,
           Normal (Child (Child (PRNGKey 5678) 5 3) 2 0),
           Normal (Child (Child (PRNGKey 5678) 5 3) 2 1),
           Split (Child (PRNGKey 5678) 5 3) 1,
           Normal (Child (PRNGKey 5678) 5 4),
           Split (Child (Child (PRNGKey 5678) 5 3) 1 0) 2,
           Normal (Child (Child (Child (PRNGKey 5678) 5 3) 1 0) 2 0),
           Normal (Child (Child (Child (PRNGKey 5678) 5 3) 1 0) 2 1),
           Split (Child (Child (PRNGKey 5678) 5 3) 1 0) 1,
           Normal (Child (PRNGKey 5678) 5 4)]\<rparr>)"
proof -
  have range: "[0..(1::int)] = [0, 1]"
    by (simp add: upto.simps)
  have split2: "jrandom_split k (Suc (Suc 0)) = [Child k 2 0, Child k 2 1]" for k
    by (simp add: jrandom_split_def upt_rec numeral_2_eq_2)
  have rng2: "loss_rng_calls k (Suc (Suc 0))
      = [Split k 2, Normal (Child k 2 0), Normal (Child k 2 1)]" for k
    by (simp add: loss_rng_calls_def split2 numeral_2_eq_2)
  have split1: "jrandom_split k (Suc 0) = [Child k 1 0]" for k
    by (simp add: jrandom_split_def)
  have perm: "jrandom_permutation example_externals k [0, Suc 0] = [1, 0]" for k
    by (simp add: example_externals_def rev_permutation_def)
  have batch: "py_slice [Suc 0, 0] 0 2 = [Suc 0, 0]"
    by (simp add: py_slice_def py_clamp_def)
  have loss2: "loss example_externals example_model [[0, 1], [0, 1]]
      [[[1, 1], [1, 1]], [[0, 0], [0, 0]]] k = Inr (Fin 2)" for k
    using train_example [of 1 k 2 0] train_example [of 0 k 2 1]
    by (simp add: loss_def mean_loss_def vmap_train_def split2 jnp_mean_def fl_div_count_def
        plus_fl_def zero_fl_def)
  have axes: "make_axes 2 = Inr 2"
    by (simp add: make_axes_def)
  show ?thesis
    by (simp add: main_loop_def num_plots_def axes range loop_body_def dataloader_next_def
        reshuffle_def advance_def perm dl_inner_yield dl_inner_again yield_batch_def
        batch_perm_def batch example_arrays_def train_and_plot_def loss2 frozen_learner_def
        plot_branch_def sample_example linspace_nonempty rng2 sample_rng_calls_def
        split1 Let_def)
qed






text \<open>
  The hypothesis that the solver does not fail is needed: with a solver that fails,
  the exception of the first call of \<^verbatim>\<open>train_step\<close> ends the run before any update.
\<close>

lemma failing_solver_aborts_run:
  "main_loop failing_externals frozen_learner example_arrays 2 2 1 example_model ()
     (Child (PRNGKey 5678) 5 2) (Child (PRNGKey 5678) 5 3) (Child (PRNGKey 5678) 5 4)
     = Some (Inl SolveFailure)"
proof -
  have range: "[0..(1::int)] = [0, 1]"
    by (simp add: upto.simps)
  have axes: "make_axes 2 = Inr 2"
    by (simp add: make_axes_def)
  have split2: "jrandom_split k (Suc (Suc 0)) = [Child k 2 0, Child k 2 1]" for k
    by (simp add: jrandom_split_def upt_rec numeral_2_eq_2)
  have perm: "jrandom_permutation failing_externals k [0, Suc 0] = [1, 0]" for k
    by (simp add: failing_externals_def example_externals_def rev_permutation_def)
  have batch: "py_slice [Suc 0, 0] 0 2 = [Suc 0, 0]"
    by (simp add: py_slice_def py_clamp_def)
  have train: "LatentODE_train failing_externals example_model [0, 1] [[a, a], [a, a]] k
      = Inl SolveFailure" for a k
    by (simp add: LatentODE_train_def LatentODE_latent_def LatentODE_sample_ts_def
        encoder_data_def encoder_hidden_def encoder_inputs_def failing_externals_def
        example_externals_def example_model_def index_normal_def float32_exp_def
        Let_def numeral_eq_Suc)
  have loss2: "loss failing_externals example_model [[0, 1], [0, 1]]
      [[[1, 1], [1, 1]], [[0, 0], [0, 0]]] k = Inl SolveFailure" for k
    by (simp add: loss_def mean_loss_def vmap_train_def split2 train)
  show ?thesis
    by (simp add: main_loop_def num_plots_def axes range loop_body_def dataloader_next_def
        reshuffle_def advance_def perm dl_inner_yield dl_inner_again yield_batch_def
        batch_perm_def batch example_arrays_def train_and_plot_def loss2 Let_def)
qed

theorem plots_match_axes_witness:
  "(1 :: int) \<le> 2 \<and> (1 :: int) \<le> 1
   \<and> num_plots 2 1 = Inr 2
   \<and> filter (plot_branch 2 1) [0..2 - 1] = [0, 1]
   \<and> (\<exists>st. main_loop example_externals frozen_learner example_arrays 2 2 1 example_model ()
         (Child (PRNGKey 5678) 5 2) (Child (PRNGKey 5678) 5 3) (Child (PRNGKey 5678) 5 4)
        = Some (Inr st) \<and> num_plots 2 1 = Inr (int (ls_axs st)))"
proof -
  have s: "(1 :: int) \<le> 2" and e: "(1 :: int) \<le> 1" by simp_all
  have f: "filter (plot_branch 2 1) [0..2 - 1] = [0, 1]"
    by (simp add: plot_branch_def upto.simps)
  from plots_match_axes [OF s e, of example_externals frozen_learner example_arrays 2
      example_model "()" "Child (PRNGKey 5678) 5 2" "Child (PRNGKey 5678) 5 3"
      "Child (PRNGKey 5678) 5 4"] example_run f
  show ?thesis by auto
qed

text \<open>
  Claim C3 does not hold of the code. In the run with \<open>steps = 2\<close> and \<open>save_every = 1\<close>
  both iterations take the plotting branch, and both pass the same \<open>sample_key\<close> to
  \<^verbatim>\<open>jrandom.normal\<close>: the key is never split, unlike \<open>train_key\<close> (line 292) and the
  dataloader's key (line 228).
\<close>

theorem sample_key_consumed_twice:
  "\<exists>st. main_loop example_externals frozen_learner example_arrays 2 2 1 example_model ()
         (Child (PRNGKey 5678) 5 2) (Child (PRNGKey 5678) 5 3) (Child (PRNGKey 5678) 5 4)
        = Some (Inr st)
     \<and> count_list (ls_rng_log st) (Normal (Child (PRNGKey 5678) 5 4)) = 2
     \<and> \<not> distinct (ls_rng_log st)"
  by (simp add: example_run)

text \<open>
  The same holds of every run that completes at least two steps: the log has one draw
  with \<open>sample_key\<close> for every step that takes the plotting branch.
\<close>

lemma loop_body_log:
  assumes "loop_body E L C step st = Some (Inr st')"
  shows "count_list (ls_rng_log st') (Normal (cfg_sample_key C))
    \<ge> count_list (ls_rng_log st) (Normal (cfg_sample_key C))
        + (if plot_branch (cfg_steps C) (cfg_save_every C) step then 1 else 0)"
proof -
  from assms obtain ts_i ys_i g where
    t: "train_and_plot E L C step (st\<lparr>ls_loader := g\<rparr>) ts_i ys_i = Inr st'"
    by (auto simp: loop_body_def split: option.splits sum.splits prod.splits)
  from train_and_plot_effect [OF t] show ?thesis
    by (simp add: sample_rng_calls_def)
qed

lemma train_loop_log:
  assumes "train_loop E L C xs st = Some (Inr st')"
  shows "count_list (ls_rng_log st') (Normal (cfg_sample_key C))
    \<ge> count_list (ls_rng_log st) (Normal (cfg_sample_key C))
        + length (filter (plot_branch (cfg_steps C) (cfg_save_every C)) xs)"
  using assms
proof (induction xs arbitrary: st)
  case Nil
  then show ?case by simp
next
  case (Cons step rest)
  from Cons.prems obtain st1 where b: "loop_body E L C step st = Some (Inr st1)"
    and r: "train_loop E L C rest st1 = Some (Inr st')"
    by (auto split: option.splits sum.splits)
  from loop_body_log [OF b] Cons.IH [OF r] show ?case by auto
qed

lemma sample_key_reused_in_every_run:
  assumes "2 \<le> steps" and "1 \<le> save_every"
    and "main_loop E L arrays batch_size steps save_every model opt_state
           loader_key train_key sample_key = Some (Inr st)"
  shows "2 \<le> count_list (ls_rng_log st) (Normal sample_key)"
proof -
  let ?p = "plot_branch steps save_every"
  let ?n = "length (filter ?p [0..steps - 1])"
  have "[0..steps - 1] = 0 # [1..steps - 2] @ [steps - 1]"
    using assms(1) upto_rec1 [of 0 "steps - 1"] upto_rec2 [of 1 "steps - 1"] by simp
  moreover have "?p 0" "?p (steps - 1)" by (simp_all add: plot_branch_def)
  ultimately have two: "2 \<le> ?n" by simp
  then have axes: "make_axes (int ?n) = Inr ?n" by (rule make_axes_two)
  from assms(1,2) have "num_plots steps save_every = Inr (int ?n)"
    by (intro plot_count) simp_all
  with assms(3) axes train_loop_log [of E L _ "[0..steps - 1]" _ st] two show ?thesis
    by (fastforce simp: main_loop_def)
qed

end
